theory Spec2Isabelle
  imports Main "HOL-Library.Sublist" "HOL-Library.AList"
begin

section \<open>JavaScript values\<close>

text \<open>
  The program is dynamically typed: the consent decision it handles is either an object
  literal built by one of the writer operations or whatever \<open>JSON.parse\<close> returned for
  the persisted cookie. Both are values of one type. Numbers are the integers (the only
  numbers the program creates are time values); strings are lists of 8-bit characters.
\<close>

text \<open>
  The exceptions the program can meet are \<open>SyntaxError\<close> (from \<open>JSON.parse\<close> and from
  the construction of a regular expression) and \<open>TypeError\<close> (a property read on
  \<open>undefined\<close> or \<open>null\<close>). \<open>Unmodelled\<close> is not a JavaScript exception: it marks a
  JSON text that uses a construct left out of the model of \<open>JSON.parse\<close> below, about
  which nothing is stated.
\<close>

datatype js_error = SyntaxError | TypeError | Unmodelled

datatype jsval =
    JUndefined
  | JNull
  | JBool bool
  | JNum int
  | JStr string
  | JDate int
  | JArr "jsval list"
  | JObj "(string \<times> jsval) list"

text \<open>ToBoolean, as used by \<open>?:\<close>, \<open>if\<close>, \<open>!\<close> and \<open>||\<close>.\<close>

fun truthy :: "jsval \<Rightarrow> bool" where
  "truthy JUndefined = False"
| "truthy JNull = False"
| "truthy (JBool b) = b"
| "truthy (JNum n) = (n \<noteq> 0)"
| "truthy (JStr s) = (s \<noteq> [])"
| "truthy (JDate t) = True"
| "truthy (JArr xs) = True"
| "truthy (JObj ms) = True"

text \<open>
  Member access \<open>o.k\<close>. Reading a property of \<open>undefined\<close> or \<open>null\<close> throws a
  TypeError; an object yields its own property or \<open>undefined\<close>; a primitive, a date or an
  array yields \<open>undefined\<close> for every name the program reads (\<open>categories\<close>,
  \<open>status\<close>, \<open>analytics\<close>, \<open>performance\<close>, \<open>advertising\<close>,
  \<open>uncategorized\<close>), none of which is defined on a built-in prototype.
\<close>

fun get_member :: "jsval \<Rightarrow> string \<Rightarrow> js_error + jsval" where
  "get_member JUndefined k = Inl TypeError"
| "get_member JNull k = Inl TypeError"
| "get_member (JObj ms) k = Inr (case map_of ms k of None \<Rightarrow> JUndefined | Some v \<Rightarrow> v)"
| "get_member v k = Inr JUndefined"

definition bind_js :: "js_error + 'a \<Rightarrow> ('a \<Rightarrow> js_error + 'b) \<Rightarrow> js_error + 'b" where
  "bind_js m f = (case m of Inl e \<Rightarrow> Inl e | Inr x \<Rightarrow> f x)"

text \<open>\<open>o.k1.k2\<close>\<close>

definition get_member2 :: "jsval \<Rightarrow> string \<Rightarrow> string \<Rightarrow> js_error + jsval" where
  "get_member2 v k1 k2 = bind_js (get_member v k1) (\<lambda>w. get_member w k2)"

section \<open>Host environment\<close>

text \<open>
  What the program obtains from the browser and cannot compute itself: the clock
  (\<open>new Date()\<close>, read once per entry point), the two date renderings, the
  regular-expression engine behind \<open>String.prototype.match\<close> (which throws a
  SyntaxError when the pattern text is not a well-formed regular expression, returns
  \<open>null\<close> when nothing matches, and otherwise the matched text followed by the capture
  groups) and the date parser behind \<open>new Date(string)\<close> (no result for an invalid date).
\<close>

record host =
  now :: int
  toISOString :: "int \<Rightarrow> string"
  toUTCString :: "int \<Rightarrow> string"
  regexp_match :: "string \<Rightarrow> string \<Rightarrow> js_error + string list option"
  date_parse :: "string \<Rightarrow> int option"

section \<open>JSON.stringify\<close>

definition dquote :: char where
  "dquote = CHR 0x22"

definition backslash :: char where
  "backslash = CHR 0x5C"

definition digit_char :: "int \<Rightarrow> char" where
  "digit_char d = char_of (48 + d)"

text \<open>The decimal digits of a non-negative integer, without leading zeros.\<close>

function show_digits :: "int \<Rightarrow> string" where
  "show_digits n = (if n < 10 then [digit_char n] else show_digits (n div 10) @ [digit_char (n mod 10)])"
  by pat_completeness auto

termination
  by (relation "measure nat") auto

declare show_digits.simps [simp del]

definition show_int :: "int \<Rightarrow> string" where
  "show_int i = (if i < 0 then CHR ''-'' # show_digits (- i) else show_digits i)"

definition hex_char :: "nat \<Rightarrow> char" where
  "hex_char d = (if d < 10 then char_of (48 + d) else char_of (87 + d))"

text \<open>QuoteJSONString on 8-bit characters.\<close>

definition escape_char :: "char \<Rightarrow> string" where
  "escape_char c =
     (if c = dquote then [backslash, dquote]
      else if c = backslash then [backslash, backslash]
      else if c = CHR 0x08 then [backslash, CHR ''b'']
      else if c = CHR 0x09 then [backslash, CHR ''t'']
      else if c = CHR 0x0A then [backslash, CHR ''n'']
      else if c = CHR 0x0C then [backslash, CHR ''f'']
      else if c = CHR 0x0D then [backslash, CHR ''r'']
      else if of_char c < (32 :: nat)
        then [backslash, CHR ''u'', CHR ''0'', CHR ''0'',
              hex_char (of_char c div 16), hex_char (of_char c mod 16)]
      else [c])"

definition quote :: "string \<Rightarrow> string" where
  "quote s = dquote # concat (map escape_char s) @ [dquote]"

fun join :: "string \<Rightarrow> string list \<Rightarrow> string" where
  "join sep [] = []"
| "join sep [x] = x"
| "join sep (x # y # ys) = x @ sep @ join sep (y # ys)"

text \<open>
  SerializeJSONProperty: \<open>undefined\<close> has no serialization, is left out of an object and
  becomes \<open>null\<close> in an array; a date serializes as its ISO string.
\<close>

fun ser :: "(int \<Rightarrow> string) \<Rightarrow> jsval \<Rightarrow> string option" where
  "ser fmt JUndefined = None"
| "ser fmt JNull = Some ''null''"
| "ser fmt (JBool b) = Some (if b then ''true'' else ''false'')"
| "ser fmt (JNum n) = Some (show_int n)"
| "ser fmt (JStr s) = Some (quote s)"
| "ser fmt (JDate t) = Some (quote (fmt t))"
| "ser fmt (JArr xs) =
     Some (''['' @ join '','' (map (\<lambda>x. case ser fmt x of None \<Rightarrow> ''null'' | Some t \<Rightarrow> t) xs) @ '']'')"
| "ser fmt (JObj ms) =
     Some (''{'' @ join '',''
        (concat (map (\<lambda>kv. case ser fmt (snd kv) of None \<Rightarrow> [] | Some t \<Rightarrow> [quote (fst kv) @ '':'' @ t]) ms))
        @ ''}'')"

definition JSON_stringify :: "host \<Rightarrow> jsval \<Rightarrow> string option" where
  "JSON_stringify h v = ser (toISOString h) v"

section \<open>JSON.parse\<close>

text \<open>
  \<open>JSON.parse\<close> on the JSON grammar: a tokenizer (white space, punctuation, the three
  literals, strings with the two-character escapes, integers without leading zeros)
  followed by a pushdown recognizer that builds the value. A text outside the grammar is a
  SyntaxError. Three constructs of the grammar are left out and answered \<open>Unmodelled\<close>:
  a number with a fraction or an exponent, an integer beyond \<open>2^53\<close> (which JavaScript
  rounds), and a \<open>\u\<close> escape. A repeated key keeps its first position and its last
  value, as property definition does.
\<close>

datatype token =
    TLBrace | TRBrace | TLBracket | TRBracket | TColon | TComma
  | TBool bool | TNull | TStr string | TNum int

definition json_ws :: "char \<Rightarrow> bool" where
  "json_ws c = (c = CHR '' '' \<or> c = CHR 0x09 \<or> c = CHR 0x0A \<or> c = CHR 0x0D)"

definition is_digit :: "char \<Rightarrow> bool" where
  "is_digit c = (48 \<le> (of_char c :: int) \<and> (of_char c :: int) \<le> 57)"

definition digit_val :: "char \<Rightarrow> int" where
  "digit_val c = of_char c - 48"

fun read_digits :: "int \<Rightarrow> string \<Rightarrow> int \<times> string" where
  "read_digits acc [] = (acc, [])"
| "read_digits acc (c # cs) =
     (if is_digit c then read_digits (acc * 10 + digit_val c) cs else (acc, c # cs))"

definition lex_number :: "string \<Rightarrow> js_error + (int \<times> string)" where
  "lex_number s =
     (let neg = (case s of [] \<Rightarrow> False | c # cs \<Rightarrow> c = CHR ''-'');
          s1 = (if neg then tl s else s)
      in case s1 of
           [] \<Rightarrow> Inl SyntaxError
         | c # cs \<Rightarrow>
             if \<not> is_digit c then Inl SyntaxError
             else
               let (n, rest) = (if c = CHR ''0'' then (0, cs) else read_digits 0 (c # cs)) in
               if (case rest of [] \<Rightarrow> False | r # rs \<Rightarrow> r = CHR ''.'' \<or> r = CHR ''e'' \<or> r = CHR ''E'')
                 then Inl Unmodelled
               else if 9007199254740992 < n then Inl Unmodelled
               else Inr (if neg then - n else n, rest))"

definition unescape :: "char \<Rightarrow> char option" where
  "unescape e =
     (if e = dquote then Some dquote
      else if e = backslash then Some backslash
      else if e = CHR ''/'' then Some CHR ''/''
      else if e = CHR ''b'' then Some (CHR 0x08)
      else if e = CHR ''f'' then Some (CHR 0x0C)
      else if e = CHR ''n'' then Some (CHR 0x0A)
      else if e = CHR ''r'' then Some (CHR 0x0D)
      else if e = CHR ''t'' then Some (CHR 0x09)
      else None)"

fun lex_string :: "string \<Rightarrow> string \<Rightarrow> js_error + (string \<times> string)" where
  "lex_string acc [] = Inl SyntaxError"
| "lex_string acc [c] = (if c = dquote then Inr (rev acc, []) else Inl SyntaxError)"
| "lex_string acc (c # e # cs) =
     (if c = dquote then Inr (rev acc, e # cs)
      else if c = backslash then
        (if e = CHR ''u'' then Inl Unmodelled
         else case unescape e of
                None \<Rightarrow> Inl SyntaxError
              | Some x \<Rightarrow> lex_string (x # acc) cs)
      else if (of_char c :: nat) < 32 then Inl SyntaxError
      else lex_string (c # acc) (e # cs))"

fun strip_prefix :: "string \<Rightarrow> string \<Rightarrow> string option" where
  "strip_prefix [] s = Some s"
| "strip_prefix (p # ps) [] = None"
| "strip_prefix (p # ps) (c # cs) = (if p = c then strip_prefix ps cs else None)"

lemma read_digits_length: "read_digits acc s = (n, rest) \<Longrightarrow> length rest \<le> length s"
proof (induction s arbitrary: acc)
  case Nil
  then show ?case by simp
next
  case (Cons c cs)
  show ?case
  proof (cases "is_digit c")
    case True
    with Cons.prems have "read_digits (acc * 10 + digit_val c) cs = (n, rest)" by simp
    from Cons.IH [OF this] show ?thesis by simp
  next
    case False
    with Cons.prems show ?thesis by simp
  qed
qed

lemma lex_string_length: "lex_string acc s = Inr (str, rest) \<Longrightarrow> length rest < length s"
proof (induction acc s rule: lex_string.induct)
  case (1 acc)
  then show ?case by simp
next
  case (2 acc c)
  then show ?case by (simp split: if_splits)
next
  case (3 acc c e cs)
  show ?case
  proof (cases "c = dquote")
    case True
    with 3 show ?thesis by simp
  next
    case nq: False
    show ?thesis
    proof (cases "c = backslash")
      case True
      with nq "3.prems" obtain x where x: "e \<noteq> CHR ''u''" "unescape e = Some x"
          and r: "lex_string (x # acc) cs = Inr (str, rest)"
        by (auto split: if_splits option.splits)
      from "3.IH"(1) [OF nq True x r] show ?thesis by simp
    next
      case False
      with nq "3.prems" have c: "\<not> (of_char c :: nat) < 32"
          and r: "lex_string (c # acc) (e # cs) = Inr (str, rest)"
        by (auto split: if_splits)
      from "3.IH"(2) [OF nq False c r] show ?thesis by simp
    qed
  qed
qed

lemma strip_prefix_length: "strip_prefix p s = Some rest \<Longrightarrow> length rest \<le> length s"
proof (induction p s rule: strip_prefix.induct)
  case (3 p ps c cs)
  then show ?case by (cases "p = c") (simp_all add: le_SucI)
qed simp_all

lemma lex_number_length:
  assumes "lex_number s = Inr (n, rest)"
  shows "length rest < length s"
proof -
  define neg where "neg = (case s of [] \<Rightarrow> False | c # cs \<Rightarrow> c = CHR ''-'')"
  define s1 where "s1 = (if neg then tl s else s)"
  have l1: "length s1 \<le> length s" by (simp add: s1_def)
  from assms obtain c cs where s1: "s1 = c # cs" and d: "is_digit c"
    unfolding lex_number_def neg_def [symmetric] Let_def s1_def [symmetric]
    by (cases s1) (auto split: if_splits)
  define r where "r = (if c = CHR ''0'' then (0, cs) else read_digits 0 (c # cs))"
  have "length (snd r) \<le> length cs"
  proof (cases "c = CHR ''0''")
    case True
    then show ?thesis by (simp add: r_def)
  next
    case False
    obtain m rest' where m: "read_digits (digit_val c) cs = (m, rest')" by (cases "read_digits (digit_val c) cs")
    from read_digits_length [OF m] False d m show ?thesis by (simp add: r_def)
  qed
  moreover from assms have "rest = snd r"
    unfolding lex_number_def neg_def [symmetric] Let_def s1_def [symmetric]
    by (simp add: s1 d r_def [symmetric] split: if_splits prod.splits)
  ultimately show ?thesis using l1 s1 by simp
qed

definition cons_token :: "token \<Rightarrow> js_error + token list \<Rightarrow> js_error + token list" where
  "cons_token t r = (case r of Inl e \<Rightarrow> Inl e | Inr ts \<Rightarrow> Inr (t # ts))"

function tokenize :: "string \<Rightarrow> js_error + token list" where
  "tokenize [] = Inr []"
| "tokenize (c # cs) =
     (if json_ws c then tokenize cs
      else if c = CHR ''{'' then cons_token TLBrace (tokenize cs)
      else if c = CHR ''}'' then cons_token TRBrace (tokenize cs)
      else if c = CHR ''['' then cons_token TLBracket (tokenize cs)
      else if c = CHR '']'' then cons_token TRBracket (tokenize cs)
      else if c = CHR '':'' then cons_token TColon (tokenize cs)
      else if c = CHR '','' then cons_token TComma (tokenize cs)
      else if c = dquote then
        (case lex_string [] cs of
           Inl e \<Rightarrow> Inl e
         | Inr (str, rest) \<Rightarrow> cons_token (TStr str) (tokenize rest))
      else if c = CHR ''-'' \<or> is_digit c then
        (case lex_number (c # cs) of
           Inl e \<Rightarrow> Inl e
         | Inr (n, rest) \<Rightarrow> cons_token (TNum n) (tokenize rest))
      else if c = CHR ''t'' then
        (case strip_prefix ''rue'' cs of
           None \<Rightarrow> Inl SyntaxError
         | Some rest \<Rightarrow> cons_token (TBool True) (tokenize rest))
      else if c = CHR ''f'' then
        (case strip_prefix ''alse'' cs of
           None \<Rightarrow> Inl SyntaxError
         | Some rest \<Rightarrow> cons_token (TBool False) (tokenize rest))
      else if c = CHR ''n'' then
        (case strip_prefix ''ull'' cs of
           None \<Rightarrow> Inl SyntaxError
         | Some rest \<Rightarrow> cons_token TNull (tokenize rest))
      else Inl SyntaxError)"
  by pat_completeness auto

termination
proof (relation "measure length")
  fix c cs x y z
  assume "lex_string [] cs = Inr x" "(y, z) = x"
  then have "lex_string [] cs = Inr (y, z)" by simp
  from lex_string_length [OF this] show "(z, c # cs) \<in> measure length" by simp
next
  fix c cs x y z
  assume "lex_number (c # cs) = Inr x" "(y, z) = x"
  then have "lex_number (c # cs) = Inr (y, z)" by simp
  from lex_number_length [OF this] show "(z, c # cs) \<in> measure length" by simp
next
  fix c :: char and cs rest :: string
  assume "strip_prefix ''rue'' cs = Some rest"
  from strip_prefix_length [OF this] show "(rest, c # cs) \<in> measure length" by simp
next
  fix c :: char and cs rest :: string
  assume "strip_prefix ''alse'' cs = Some rest"
  from strip_prefix_length [OF this] show "(rest, c # cs) \<in> measure length" by simp
next
  fix c :: char and cs rest :: string
  assume "strip_prefix ''ull'' cs = Some rest"
  from strip_prefix_length [OF this] show "(rest, c # cs) \<in> measure length" by simp
qed simp_all

declare tokenize.simps [simp del]

datatype frame = InArray "jsval list" | InObject "(string \<times> jsval) list" string

datatype pstate =
    Value
  | ArrayStart
  | ObjectStart
  | Key "(string \<times> jsval) list"
  | Colon "(string \<times> jsval) list" string
  | After jsval

definition start_value :: "frame list \<Rightarrow> token \<Rightarrow> js_error + pstate \<times> frame list" where
  "start_value st t =
     (case t of
        TBool b \<Rightarrow> Inr (After (JBool b), st)
      | TNull \<Rightarrow> Inr (After JNull, st)
      | TStr s \<Rightarrow> Inr (After (JStr s), st)
      | TNum n \<Rightarrow> Inr (After (JNum n), st)
      | TLBracket \<Rightarrow> Inr (ArrayStart, st)
      | TLBrace \<Rightarrow> Inr (ObjectStart, st)
      | _ \<Rightarrow> Inl SyntaxError)"

definition close_value :: "jsval \<Rightarrow> frame list \<Rightarrow> token \<Rightarrow> js_error + pstate \<times> frame list" where
  "close_value v st t =
     (case st of
        [] \<Rightarrow> Inl SyntaxError
      | InArray xs # st1 \<Rightarrow>
          if t = TComma then Inr (Value, InArray (xs @ [v]) # st1)
          else if t = TRBracket then Inr (After (JArr (xs @ [v])), st1)
          else Inl SyntaxError
      | InObject ms k # st1 \<Rightarrow>
          if t = TComma then Inr (Key (AList.update k v ms), st1)
          else if t = TRBrace then Inr (After (JObj (AList.update k v ms)), st1)
          else Inl SyntaxError)"

fun step :: "pstate \<Rightarrow> frame list \<Rightarrow> token \<Rightarrow> js_error + pstate \<times> frame list" where
  "step Value st t = start_value st t"
| "step ArrayStart st t =
     (if t = TRBracket then Inr (After (JArr []), st) else start_value (InArray [] # st) t)"
| "step ObjectStart st t =
     (case t of
        TRBrace \<Rightarrow> Inr (After (JObj []), st)
      | TStr k \<Rightarrow> Inr (Colon [] k, st)
      | _ \<Rightarrow> Inl SyntaxError)"
| "step (Key ms) st t = (case t of TStr k \<Rightarrow> Inr (Colon ms k, st) | _ \<Rightarrow> Inl SyntaxError)"
| "step (Colon ms k) st t = (if t = TColon then Inr (Value, InObject ms k # st) else Inl SyntaxError)"
| "step (After v) st t = close_value v st t"

fun run :: "pstate \<Rightarrow> frame list \<Rightarrow> token list \<Rightarrow> js_error + jsval" where
  "run p st [] = (case (p, st) of (After v, []) \<Rightarrow> Inr v | _ \<Rightarrow> Inl SyntaxError)"
| "run p st (t # ts) = (case step p st t of Inl e \<Rightarrow> Inl e | Inr (p1, st1) \<Rightarrow> run p1 st1 ts)"

definition JSON_parse :: "string \<Rightarrow> js_error + jsval" where
  "JSON_parse text = bind_js (tokenize text) (run Value [])"

section \<open>The cookie store\<close>

text \<open>
  The cookies visible to the page are a list of name-value pairs in the order in which
  \<open>document.cookie\<close> lists them. Reading \<open>document.cookie\<close> joins them with
  \<open>"; "\<close>; a cookie without a name is listed by its value alone.
\<close>

definition cookie_text :: "string \<times> string \<Rightarrow> string" where
  "cookie_text nv = (if fst nv = [] then snd nv else fst nv @ ''='' @ snd nv)"

definition document_cookie :: "(string \<times> string) list \<Rightarrow> string" where
  "document_cookie cs = join ''; '' (map cookie_text cs)"

text \<open>
  Assigning to \<open>document.cookie\<close>: the text up to the first \<open>;\<close> is the name-value
  pair, split at its first \<open>=\<close> (a pair without \<open>=\<close> is a value without a name),
  both stripped of surrounding spaces and tabs; a pair with neither name nor value is
  ignored. The cookie replaces the one of the same name in place, or is listed last.
  The attributes after the first \<open>;\<close> are not interpreted: the program only writes
  one cookie, with an expiry in the future and \<open>path=/\<close>, and the page is taken to
  be served over HTTPS, as the \<open>Secure\<close> attribute requires.
\<close>

definition wsp :: "char \<Rightarrow> bool" where
  "wsp c = (c = CHR '' '' \<or> c = CHR 0x09)"

definition strip_wsp :: "string \<Rightarrow> string" where
  "strip_wsp s = rev (dropWhile wsp (rev (dropWhile wsp s)))"

definition cookie_pair :: "string \<Rightarrow> string \<times> string" where
  "cookie_pair text =
     (let pair = takeWhile (\<lambda>c. c \<noteq> CHR '';'') text in
      if CHR ''='' \<in> set pair
      then (strip_wsp (takeWhile (\<lambda>c. c \<noteq> CHR ''='') pair),
            strip_wsp (tl (dropWhile (\<lambda>c. c \<noteq> CHR ''='') pair)))
      else ([], strip_wsp pair))"

definition cookie_assign :: "string \<Rightarrow> (string \<times> string) list \<Rightarrow> (string \<times> string) list" where
  "cookie_assign text cs =
     (let nv = cookie_pair text in
      if fst nv = [] \<and> snd nv = [] then cs else AList.update (fst nv) (snd nv) cs)"

section \<open>Page state\<close>

datatype handler =
    AcceptFromBanner | RejectFromBanner | Customize
  | AcceptFromSettings | RejectFromSettings | SaveFromSettings | CloseSettings

text \<open>
  The part of the browser state the program reads or writes: the cookie store, the
  \<open>dataLayer\<close> queue, the console, the \<open>style.display\<close> of the banner and of the
  settings panel (absent while the element does not exist), the clickable controls present
  (by id, the close control by its class selector), the \<open>checked\<close> state of the
  category toggles in document order, the registered click listeners, whether the global
  \<open>ga\<close> is defined, the queue of the global \<open>fbq\<close> (absent while it is undefined)
  and the sources of the script elements inserted by the program.
\<close>

record page =
  jar :: "(string \<times> string) list"
  dataLayer :: "jsval list"
  console :: "jsval list list"
  banner :: "string option"
  modal :: "string option"
  controls :: "string list"
  toggles :: "(string \<times> bool) list"
  listeners :: "(string \<times> handler) list"
  ga_defined :: bool
  fbq :: "jsval list list option"
  scripts :: "string list"

text \<open>
  \<open>function gtag() { dataLayer.push(arguments); }\<close>, the \<open>arguments\<close> object as an
  array.
\<close>

definition gtag :: "jsval list \<Rightarrow> page \<Rightarrow> page" where
  "gtag arguments s = s\<lparr>dataLayer := dataLayer s @ [JArr arguments]\<rparr>"

definition console_log :: "jsval list \<Rightarrow> page \<Rightarrow> page" where
  "console_log arguments s = s\<lparr>console := console s @ [arguments]\<rparr>"

section \<open>Persisting and reading the cookie\<close>

definition setCookie :: "host \<Rightarrow> string \<Rightarrow> string \<Rightarrow> int \<Rightarrow> page \<Rightarrow> page" where
  "setCookie h name val days s =
     (let expires = (if days \<noteq> 0
                     then ''; expires='' @ toUTCString h (now h + days * 24 * 60 * 60 * 1000)
                     else [])
      in s\<lparr>jar := cookie_assign
             (name @ ''='' @ (if val \<noteq> [] then val else []) @ expires @ ''; path=/; SameSite=Lax; Secure'')
             (jar s)\<rparr>)"

text \<open>
  \<open>String.prototype.split\<close> with a one-character separator. The result is never empty
  (\<open>split_on_nonempty\<close> below), so the first branch of the \<open>case\<close> is not taken.
\<close>

fun split_on :: "char \<Rightarrow> string \<Rightarrow> string list" where
  "split_on sep [] = [[]]"
| "split_on sep (c # cs) =
     (if c = sep then [] # split_on sep cs
      else case split_on sep cs of
             [] \<Rightarrow> [[c]]
           | x # xs \<Rightarrow> (c # x) # xs)"

text \<open>
  \<open>getCookie\<close>: the loop over the entries of \<open>document.cookie.split(';')\<close>; \<open>null\<close>
  is \<open>None\<close>.
\<close>

fun getCookie_loop :: "string \<Rightarrow> string list \<Rightarrow> string option" where
  "getCookie_loop nameEQ [] = None"
| "getCookie_loop nameEQ (c # ca) =
     (let c' = dropWhile (\<lambda>x. x = CHR '' '') c in
      if prefix nameEQ c' then Some (drop (length nameEQ) c')
      else getCookie_loop nameEQ ca)"

definition getCookie :: "string \<Rightarrow> page \<Rightarrow> string option" where
  "getCookie name s = getCookie_loop (name @ ''='') (split_on CHR '';'' (document_cookie (jar s)))"

section \<open>Consent mode\<close>

text \<open>
  What the script does when it is loaded, before any decision: everything is denied but
  \<open>functionality_storage\<close> and \<open>security_storage\<close>.
\<close>

definition default_consent :: jsval where
  "default_consent =
     JObj [(''ad_storage'', JStr ''denied''),
           (''analytics_storage'', JStr ''denied''),
           (''ad_user_data'', JStr ''denied''),
           (''ad_personalization'', JStr ''denied''),
           (''personalization_storage'', JStr ''denied''),
           (''functionality_storage'', JStr ''granted''),
           (''security_storage'', JStr ''granted'')]"

definition on_script_load :: "page \<Rightarrow> page" where
  "on_script_load s = gtag [JStr ''consent'', JStr ''default'', default_consent] s"

definition granted_or_denied :: "jsval \<Rightarrow> jsval" where
  "granted_or_denied v = JStr (if truthy v then ''granted'' else ''denied'')"

text \<open>The object literal \<open>consentStates\<close>; its property reads happen in source order.\<close>

definition consentStates :: "jsval \<Rightarrow> js_error + jsval" where
  "consentStates consentData =
     bind_js (get_member2 consentData ''categories'' ''advertising'') (\<lambda>ad_storage.
     bind_js (get_member2 consentData ''categories'' ''analytics'') (\<lambda>analytics_storage.
     bind_js (get_member2 consentData ''categories'' ''advertising'') (\<lambda>ad_user_data.
     bind_js (get_member2 consentData ''categories'' ''advertising'') (\<lambda>ad_personalization.
     bind_js (get_member2 consentData ''categories'' ''performance'') (\<lambda>personalization_storage.
     Inr (JObj
       [(''ad_storage'', granted_or_denied ad_storage),
        (''analytics_storage'', granted_or_denied analytics_storage),
        (''ad_user_data'', granted_or_denied ad_user_data),
        (''ad_personalization'', granted_or_denied ad_personalization),
        (''personalization_storage'', granted_or_denied personalization_storage),
        (''functionality_storage'', JStr ''granted''),
        (''security_storage'', JStr ''granted'')]))))))"

text \<open>The GCS signal: \<open>G100\<close> unless the status is strictly equal to one of two strings.\<close>

definition gcsSignal :: "jsval \<Rightarrow> string" where
  "gcsSignal status =
     (if status = JStr ''accepted'' then ''G111''
      else if status = JStr ''custom'' then ''G101''
      else ''G100'')"

definition updateConsentMode :: "host \<Rightarrow> jsval \<Rightarrow> page \<Rightarrow> js_error + page" where
  "updateConsentMode h consentData s =
     bind_js (consentStates consentData) (\<lambda>states.
     let s1 = gtag [JStr ''consent'', JStr ''update'', states] s in
     bind_js (get_member consentData ''status'') (\<lambda>status.
     let gcs = gcsSignal status;
         s2 = (if truthy (JArr (dataLayer s1))
               then s1\<lparr>dataLayer := dataLayer s1 @
                      [JObj [(''event'', JStr ''cookie_consent_update''),
                             (''consent_mode'', states),
                             (''gcs'', JStr gcs),
                             (''timestamp'', JStr (toISOString h (now h)))]]\<rparr>
               else s1);
         s3 = console_log [JStr ''Consent Mode Updated:'', states] s2
     in Inr (console_log [JStr ''GCS Signal Sent:'', JStr gcs] s3)))"

section \<open>Loader\<close>

text \<open>\<open>typeof gtag === 'function'\<close> holds: \<open>gtag\<close> is a function declaration of the script.\<close>

definition loadAnalyticsCookies :: "host \<Rightarrow> page \<Rightarrow> page" where
  "loadAnalyticsCookies h s =
     (let s1 = console_log [JStr ''Loading analytics cookies''] s in
      if \<not> ga_defined s1 \<and> True
      then gtag [JStr ''config'', JStr ''YOUR_GA4_MEASUREMENT_ID'']
             (gtag [JStr ''js'', JDate (now h)] s1)
      else s1)"

text \<open>
  The pixel snippet defines \<open>fbq\<close> with an empty queue, inserts the script element
  before the first script of the page, and the two calls that follow are queued.
\<close>

definition loadAdvertisingCookies :: "page \<Rightarrow> page" where
  "loadAdvertisingCookies s =
     (let s1 = console_log [JStr ''Loading advertising cookies''] s in
      if fbq s1 = None
      then s1\<lparr>scripts := ''https://connect.facebook.net/en_US/fbevents.js'' # scripts s1,
               fbq := Some [[JStr ''init'', JStr ''YOUR_PIXEL_ID''], [JStr ''track'', JStr ''PageView'']]\<rparr>
      else s1)"

definition loadPerformanceCookies :: "page \<Rightarrow> page" where
  "loadPerformanceCookies s = console_log [JStr ''Loading performance cookies''] s"

definition loadCookiesAccordingToConsent :: "host \<Rightarrow> jsval \<Rightarrow> page \<Rightarrow> js_error + page" where
  "loadCookiesAccordingToConsent h consentData s =
     bind_js (get_member2 consentData ''categories'' ''analytics'') (\<lambda>analytics.
     let s1 = (if truthy analytics then loadAnalyticsCookies h s else s) in
     bind_js (get_member2 consentData ''categories'' ''advertising'') (\<lambda>advertising.
     let s2 = (if truthy advertising then loadAdvertisingCookies s1 else s1) in
     bind_js (get_member2 consentData ''categories'' ''performance'') (\<lambda>performance.
     Inr (if truthy performance then loadPerformanceCookies s2 else s2))))"

section \<open>The writer operations\<close>

definition accepted_consentData :: "host \<Rightarrow> jsval" where
  "accepted_consentData h =
     JObj [(''status'', JStr ''accepted''),
           (''gcs'', JStr ''G111''),
           (''categories'', JObj [(''functional'', JBool True),
                                  (''analytics'', JBool True),
                                  (''performance'', JBool True),
                                  (''advertising'', JBool True),
                                  (''uncategorized'', JBool True)]),
           (''timestamp'', JNum (now h))]"

definition rejected_consentData :: "host \<Rightarrow> jsval" where
  "rejected_consentData h =
     JObj [(''status'', JStr ''rejected''),
           (''gcs'', JStr ''G100''),
           (''categories'', JObj [(''functional'', JBool True),
                                  (''analytics'', JBool False),
                                  (''performance'', JBool False),
                                  (''advertising'', JBool False),
                                  (''uncategorized'', JBool False)]),
           (''timestamp'', JNum (now h))]"

text \<open>\<open>setCookie('cookie_consent', JSON.stringify(consentData), 365)\<close>\<close>

definition persist :: "host \<Rightarrow> jsval \<Rightarrow> page \<Rightarrow> page" where
  "persist h consentData s =
     setCookie h ''cookie_consent''
       (case JSON_stringify h consentData of None \<Rightarrow> [] | Some text \<Rightarrow> text) 365 s"

definition acceptAllCookies :: "host \<Rightarrow> page \<Rightarrow> js_error + page" where
  "acceptAllCookies h s =
     (let consentData = accepted_consentData h in
      bind_js (updateConsentMode h consentData (persist h consentData s))
        (loadCookiesAccordingToConsent h consentData))"

definition rejectAllCookies :: "host \<Rightarrow> page \<Rightarrow> js_error + page" where
  "rejectAllCookies h s =
     (let consentData = rejected_consentData h in
      updateConsentMode h consentData (persist h consentData s))"

text \<open>
  \<open>document.querySelector('input[data-category="c"]')\<close> is the first toggle of that
  category in document order, or \<open>null\<close>; reading \<open>.checked\<close> of \<open>null\<close> throws.
\<close>

definition toggle_checked :: "string \<Rightarrow> page \<Rightarrow> js_error + bool" where
  "toggle_checked category s =
     (case map_of (toggles s) category of None \<Rightarrow> Inl TypeError | Some b \<Rightarrow> Inr b)"

definition custom_consentData :: "host \<Rightarrow> page \<Rightarrow> js_error + jsval" where
  "custom_consentData h s =
     bind_js (toggle_checked ''analytics'' s) (\<lambda>analytics.
     bind_js (toggle_checked ''performance'' s) (\<lambda>performance.
     bind_js (toggle_checked ''advertising'' s) (\<lambda>advertising.
     bind_js (if map_of (toggles s) ''uncategorized'' \<noteq> None
              then toggle_checked ''uncategorized'' s else Inr False) (\<lambda>uncategorized.
     Inr (JObj [(''status'', JStr ''custom''),
                (''gcs'', JStr ''G101''),
                (''categories'', JObj [(''functional'', JBool True),
                                       (''analytics'', JBool analytics),
                                       (''performance'', JBool performance),
                                       (''advertising'', JBool advertising),
                                       (''uncategorized'', JBool uncategorized)]),
                (''timestamp'', JNum (now h))])))))"

definition saveCustomSettings :: "host \<Rightarrow> page \<Rightarrow> js_error + page" where
  "saveCustomSettings h s =
     bind_js (custom_consentData h s) (\<lambda>consentData.
     bind_js (updateConsentMode h consentData (persist h consentData s))
       (loadCookiesAccordingToConsent h consentData))"

section \<open>Pattern database\<close>

text \<open>The keys of \<open>cookieDatabase\<close> in insertion order, as \<open>for ... in\<close> visits them.\<close>

definition cookieDatabase :: "(string \<times> string) list" where
  "cookieDatabase =
     [(''_ga'', ''analytics''),
      (''_gid'', ''analytics''),
      (''_gat'', ''analytics''),
      (''_ga_'', ''analytics''),
      (''_dc_gtm_'', ''analytics''),
      (''_gac_'', ''analytics''),
      (''_fbp'', ''advertising''),
      (''fr'', ''advertising''),
      (''xs'', ''advertising''),
      (''sb'', ''advertising''),
      (''datr'', ''advertising''),
      (''wordpress_'', ''functional''),
      (''wp-settings'', ''functional''),
      (''PHPSESSID'', ''functional''),
      (''wordpress_logged_in'', ''functional''),
      (''wordpress_test_cookie'', ''functional''),
      (''wp-saving-post'', ''functional''),
      (''__utma'', ''performance''),
      (''__utmb'', ''performance''),
      (''__utmc'', ''performance''),
      (''__utmt'', ''performance''),
      (''__utmz'', ''performance''),
      (''__utmv'', ''performance''),
      (''_hj'', ''performance''),
      (''_gcl_au'', ''advertising''),
      (''_gcl_aw'', ''advertising''),
      (''_gcl_dc'', ''advertising''),
      (''IDE'', ''advertising''),
      (''test_cookie'', ''advertising''),
      (''NID'', ''advertising'')]"

definition descriptions :: "(string \<times> string) list" where
  "descriptions =
     [(''_ga'', ''Google Analytics cookie used to distinguish users (2 years)''),
      (''_gid'', ''Google Analytics cookie used to distinguish users (24 hours)''),
      (''_gat'', ''Google Analytics cookie used to throttle request rate (1 minute)''),
      (''_fbp'', ''Facebook Pixel cookie used to track conversions (3 months)''),
      (''fr'', ''Facebook cookie used to deliver a series of advertisement products (3 months)''),
      (''wordpress_logged_in'', ''WordPress cookie indicating when you'' @ [CHR 0x27] @ ''re logged in (session)''),
      (''wordpress_test_cookie'', ''WordPress test cookie to check if cookies are enabled (session)''),
      (''PHPSESSID'', ''PHP session cookie essential for website functionality (session)''),
      (''NID'', ''Google advertising cookie used for user tracking (6 months)''),
      (''IDE'', ''Google DoubleClick advertising cookie (1 year)'')]"

definition getCookieDescription :: "string \<Rightarrow> string" where
  "getCookieDescription name =
     (case map_of descriptions name of
        None \<Rightarrow> ''No description available''
      | Some d \<Rightarrow> if d \<noteq> [] then d else ''No description available'')"

section \<open>Cookie scanner\<close>

text \<open>
  \<open>getCookieDuration\<close> builds two regular expressions from the cookie name and matches
  them against \<open>document.cookie\<close>; the first capture group of the second match is parsed
  as a date and compared with the clock.
\<close>

definition getCookieDuration :: "host \<Rightarrow> string \<Rightarrow> string \<Rightarrow> js_error + string" where
  "getCookieDuration h doc name =
     bind_js (regexp_match h (name @ ''=[^;]+(;|$)'') doc) (\<lambda>cookie.
     if cookie = None then Inr ''Session''
     else
       bind_js (regexp_match h (name @ ''=[^;]+; expires=([^;]+)'') doc) (\<lambda>expires.
       case expires of
         Some (whole # group1 # groups) \<Rightarrow>
           if group1 \<noteq> [] then
             (case date_parse h group1 of
                None \<Rightarrow> Inr ''Expired''
              | Some expiryDate \<Rightarrow> Inr (if now h < expiryDate then ''Persistent'' else ''Expired''))
           else Inr ''Session''
       | _ \<Rightarrow> Inr ''Session''))"

text \<open>\<open>String.prototype.trim\<close> on 8-bit characters.\<close>

definition js_space :: "char \<Rightarrow> bool" where
  "js_space c =
     (c = CHR '' '' \<or> c = CHR 0x09 \<or> c = CHR 0x0A \<or> c = CHR 0x0B \<or> c = CHR 0x0C
      \<or> c = CHR 0x0D \<or> c = CHR 0xA0)"

definition trim :: "string \<Rightarrow> string" where
  "trim s = rev (dropWhile js_space (rev (dropWhile js_space s)))"

text \<open>\<open>name.includes(pattern)\<close>: the pattern occurs in the name as a contiguous substring.\<close>

definition string_includes :: "string \<Rightarrow> string \<Rightarrow> bool" where
  "string_includes name pattern = sublist pattern name"

text \<open>\<open>const [name] = cookie.trim().split('=')\<close>\<close>

definition cookie_name :: "string \<Rightarrow> string" where
  "cookie_name cookie = hd (split_on CHR ''='' (trim cookie))"

text \<open>
  The snapshot is the object \<open>result\<close>: its five keys with one array each.
  \<open>result[category].push(entry)\<close> throws when the category is not a key.
\<close>

definition empty_result :: "(string \<times> jsval list) list" where
  "empty_result =
     [(''functional'', []), (''analytics'', []), (''performance'', []),
      (''advertising'', []), (''uncategorized'', [])]"

definition push :: "string \<Rightarrow> jsval \<Rightarrow> (string \<times> jsval list) list \<Rightarrow> js_error + (string \<times> jsval list) list" where
  "push category entry result =
     (case map_of result category of
        None \<Rightarrow> Inl TypeError
      | Some entries \<Rightarrow> Inr (AList.update category (entries @ [entry]) result))"

definition cookie_entry :: "string \<Rightarrow> string \<Rightarrow> string \<Rightarrow> jsval" where
  "cookie_entry name duration description =
     JObj [(''name'', JStr name), (''duration'', JStr duration), (''description'', JStr description)]"

text \<open>
  The loop over the patterns, with its \<open>break\<close>: the result and the flag
  \<open>categorized\<close> after the loop.
\<close>

fun pattern_loop ::
  "host \<Rightarrow> string \<Rightarrow> string \<Rightarrow> (string \<times> string) list \<Rightarrow> (string \<times> jsval list) list
     \<Rightarrow> js_error + (string \<times> jsval list) list \<times> bool" where
  "pattern_loop h doc name [] result = Inr (result, False)"
| "pattern_loop h doc name (pc # db) result =
     (if string_includes name (fst pc) then
        bind_js (getCookieDuration h doc name) (\<lambda>duration.
        bind_js (push (snd pc) (cookie_entry name duration (getCookieDescription name)) result) (\<lambda>result1.
        Inr (result1, True)))
      else pattern_loop h doc name db result)"

text \<open>The callback of \<open>cookies.forEach\<close>.\<close>

definition scan_cookie ::
  "host \<Rightarrow> string \<Rightarrow> (string \<times> jsval list) list \<Rightarrow> string \<Rightarrow> js_error + (string \<times> jsval list) list" where
  "scan_cookie h doc result cookie =
     (let name = cookie_name cookie in
      bind_js (pattern_loop h doc name cookieDatabase result) (\<lambda>r.
      if \<not> snd r \<and> name \<noteq> [] then
        bind_js (getCookieDuration h doc name) (\<lambda>duration.
        push ''uncategorized'' (cookie_entry name duration ''Unknown cookie purpose'') (fst r))
      else Inr (fst r)))"

fun forEach_cookie ::
  "host \<Rightarrow> string \<Rightarrow> string list \<Rightarrow> (string \<times> jsval list) list \<Rightarrow> js_error + (string \<times> jsval list) list" where
  "forEach_cookie h doc [] result = Inr result"
| "forEach_cookie h doc (cookie # cookies) result =
     bind_js (scan_cookie h doc result cookie) (forEach_cookie h doc cookies)"

text \<open>The scan of a raw cookie string, and of the page's \<open>document.cookie\<close>.\<close>

definition scan_cookies :: "host \<Rightarrow> string \<Rightarrow> js_error + (string \<times> jsval list) list" where
  "scan_cookies h doc = forEach_cookie h doc (split_on CHR '';'' doc) empty_result"

definition scanAndCategorizeCookies :: "host \<Rightarrow> page \<Rightarrow> js_error + (string \<times> jsval list) list" where
  "scanAndCategorizeCookies h s = scan_cookies h (document_cookie (jar s))"

section \<open>Rendering\<close>

text \<open>
  \<open>injectConsentHTML\<close> appends the banner and the settings panel to the body. The model
  keeps what the program later addresses: the two containers, the seven controls and the
  category toggles (the functional one checked and disabled, the others unchecked; the
  uncategorized one only when uncategorized cookies were detected). The markup of the
  detail tables is text without elements of that kind and is not represented; an element
  already in the page precedes the appended one in document order.
\<close>

definition injectConsentHTML :: "(string \<times> jsval list) list \<Rightarrow> page \<Rightarrow> js_error + page" where
  "injectConsentHTML detectedCookies s =
     (if map_of detectedCookies ''functional'' = None \<or> map_of detectedCookies ''analytics'' = None
         \<or> map_of detectedCookies ''performance'' = None \<or> map_of detectedCookies ''advertising'' = None
      then Inl TypeError
      else case map_of detectedCookies ''uncategorized'' of
        None \<Rightarrow> Inl TypeError
      | Some uncategorized \<Rightarrow>
          Inr (s\<lparr>banner := (case banner s of None \<Rightarrow> Some [] | Some d \<Rightarrow> Some d),
                 modal := (case modal s of None \<Rightarrow> Some [] | Some d \<Rightarrow> Some d),
                 controls := controls s @
                   [''adjustConsentBtn'', ''rejectAllBtn'', ''acceptAllBtn'', ''.close-modal'',
                    ''rejectAllSettingsBtn'', ''saveSettingsBtn'', ''acceptAllSettingsBtn''],
                 toggles := toggles s @
                   [(''functional'', True), (''analytics'', False), (''performance'', False),
                    (''advertising'', False)] @
                   (if 0 < length uncategorized then [(''uncategorized'', False)] else [])\<rparr>))"

section \<open>Banner, settings panel and initialization\<close>

definition showCookieBanner :: "page \<Rightarrow> js_error + page" where
  "showCookieBanner s = (case banner s of None \<Rightarrow> Inl TypeError | Some d \<Rightarrow> Inr (s\<lparr>banner := Some ''block''\<rparr>))"

definition hideCookieBanner :: "page \<Rightarrow> js_error + page" where
  "hideCookieBanner s = (case banner s of None \<Rightarrow> Inl TypeError | Some d \<Rightarrow> Inr (s\<lparr>banner := Some ''none''\<rparr>))"

definition hideCookieSettings :: "page \<Rightarrow> js_error + page" where
  "hideCookieSettings s = (case modal s of None \<Rightarrow> Inl TypeError | Some d \<Rightarrow> Inr (s\<lparr>modal := Some ''none''\<rparr>))"

text \<open>\<open>document.querySelector('input[data-category="c"]').checked = v\<close>\<close>

definition set_checked :: "string \<Rightarrow> jsval \<Rightarrow> page \<Rightarrow> js_error + page" where
  "set_checked category v s =
     (case map_of (toggles s) category of
        None \<Rightarrow> Inl TypeError
      | Some b \<Rightarrow> Inr (s\<lparr>toggles := AList.update category (truthy v) (toggles s)\<rparr>))"

definition showCookieSettings :: "page \<Rightarrow> js_error + page" where
  "showCookieSettings s =
     (case modal s of
        None \<Rightarrow> Inl TypeError
      | Some d \<Rightarrow>
          bind_js (hideCookieBanner (s\<lparr>modal := Some ''block''\<rparr>)) (\<lambda>s1.
          case getCookie ''cookie_consent'' s1 of
            None \<Rightarrow> Inr s1
          | Some consent \<Rightarrow>
              if consent = [] then Inr s1
              else
                bind_js (JSON_parse consent) (\<lambda>consentData.
                bind_js (get_member2 consentData ''categories'' ''analytics'') (\<lambda>analytics.
                bind_js (set_checked ''analytics'' analytics s1) (\<lambda>s2.
                bind_js (get_member2 consentData ''categories'' ''performance'') (\<lambda>performance.
                bind_js (set_checked ''performance'' performance s2) (\<lambda>s3.
                bind_js (get_member2 consentData ''categories'' ''advertising'') (\<lambda>advertising.
                bind_js (set_checked ''advertising'' advertising s3) (\<lambda>s4.
                if map_of (toggles s4) ''uncategorized'' \<noteq> None then
                  bind_js (get_member2 consentData ''categories'' ''uncategorized'') (\<lambda>uncategorized.
                  set_checked ''uncategorized'' uncategorized s4)
                else Inr s4)))))))))"

text \<open>\<open>target.addEventListener('click', ...)\<close>; a missing target is \<open>null\<close>.\<close>

definition addEventListener :: "string \<Rightarrow> handler \<Rightarrow> page \<Rightarrow> js_error + page" where
  "addEventListener target f s =
     (if target \<in> set (controls s) then Inr (s\<lparr>listeners := listeners s @ [(target, f)]\<rparr>)
      else Inl TypeError)"

definition register_listeners :: "page \<Rightarrow> js_error + page" where
  "register_listeners s =
     bind_js (addEventListener ''acceptAllBtn'' AcceptFromBanner s) (\<lambda>s1.
     bind_js (addEventListener ''rejectAllBtn'' RejectFromBanner s1) (\<lambda>s2.
     bind_js (addEventListener ''adjustConsentBtn'' Customize s2) (\<lambda>s3.
     bind_js (addEventListener ''acceptAllSettingsBtn'' AcceptFromSettings s3) (\<lambda>s4.
     bind_js (addEventListener ''rejectAllSettingsBtn'' RejectFromSettings s4) (\<lambda>s5.
     bind_js (addEventListener ''saveSettingsBtn'' SaveFromSettings s5) (\<lambda>s6.
     addEventListener ''.close-modal'' CloseSettings s6))))))"

text \<open>
  \<open>initializeCookieConsent\<close>: \<open>!consentGiven\<close> holds for \<open>null\<close> and for the empty
  string; otherwise the value goes to \<open>JSON.parse\<close>, outside any \<open>try\<close>.
\<close>

definition initializeCookieConsent :: "host \<Rightarrow> (string \<times> jsval list) list \<Rightarrow> page \<Rightarrow> js_error + page" where
  "initializeCookieConsent h detectedCookies s =
     bind_js
       (case getCookie ''cookie_consent'' s of
          None \<Rightarrow> showCookieBanner s
        | Some consentGiven \<Rightarrow>
            if consentGiven = [] then showCookieBanner s
            else
              bind_js (JSON_parse consentGiven) (\<lambda>consentData.
              bind_js (updateConsentMode h consentData s) (\<lambda>s1.
              loadCookiesAccordingToConsent h consentData s1)))
       register_listeners"

text \<open>The listener of \<open>DOMContentLoaded\<close>.\<close>

definition onDOMContentLoaded :: "host \<Rightarrow> page \<Rightarrow> js_error + page" where
  "onDOMContentLoaded h s =
     bind_js (scanAndCategorizeCookies h s) (\<lambda>detectedCookies.
     bind_js (injectConsentHTML detectedCookies s) (\<lambda>s1.
     initializeCookieConsent h detectedCookies s1))"

text \<open>The click listeners registered by \<open>initializeCookieConsent\<close>.\<close>

fun click :: "handler \<Rightarrow> host \<Rightarrow> page \<Rightarrow> js_error + page" where
  "click AcceptFromBanner h s = bind_js (acceptAllCookies h s) hideCookieBanner"
| "click RejectFromBanner h s = bind_js (rejectAllCookies h s) hideCookieBanner"
| "click Customize h s = showCookieSettings s"
| "click AcceptFromSettings h s = bind_js (acceptAllCookies h s) hideCookieSettings"
| "click RejectFromSettings h s = bind_js (rejectAllCookies h s) hideCookieSettings"
| "click SaveFromSettings h s = bind_js (saveCustomSettings h s) hideCookieSettings"
| "click CloseSettings h s = bind_js (hideCookieSettings s) showCookieBanner"

section \<open>Consent decisions\<close>

text \<open>
  The shape of the object the three writer operations build: a status, a signal code, one
  boolean per category and a timestamp.
\<close>

datatype consent_status = Accepted | Rejected | Custom

datatype gcs_code = G111 | G100 | G101

record categories =
  functional :: bool
  analytics :: bool
  performance :: bool
  advertising :: bool
  uncategorized :: bool

record ConsentDecision =
  status :: consent_status
  signal :: gcs_code
  categories :: categories
  timestamp :: int

fun status_text :: "consent_status \<Rightarrow> string" where
  "status_text Accepted = ''accepted''"
| "status_text Rejected = ''rejected''"
| "status_text Custom = ''custom''"

fun gcs_text :: "gcs_code \<Rightarrow> string" where
  "gcs_text G111 = ''G111''"
| "gcs_text G100 = ''G100''"
| "gcs_text G101 = ''G101''"

definition decision_obj :: "ConsentDecision \<Rightarrow> jsval" where
  "decision_obj d =
     JObj [(''status'', JStr (status_text (status d))),
           (''gcs'', JStr (gcs_text (signal d))),
           (''categories'', JObj [(''functional'', JBool (functional (categories d))),
                                  (''analytics'', JBool (analytics (categories d))),
                                  (''performance'', JBool (performance (categories d))),
                                  (''advertising'', JBool (advertising (categories d))),
                                  (''uncategorized'', JBool (uncategorized (categories d)))]),
           (''timestamp'', JNum (timestamp d))]"

text \<open>A time value, as \<open>Date.prototype.getTime\<close> returns it.\<close>

definition time_value :: "int \<Rightarrow> bool" where
  "time_value t = (- 8640000000000000 \<le> t \<and> t \<le> 8640000000000000)"

text \<open>The text \<open>JSON.stringify\<close> produces for such an object.\<close>

definition decision_text :: "ConsentDecision \<Rightarrow> string" where
  "decision_text d =
     ''{'' @ quote ''status'' @ '':'' @ quote (status_text (status d)) @ '','' @
     quote ''gcs'' @ '':'' @ quote (gcs_text (signal d)) @ '','' @
     quote ''categories'' @ '':'' @ ''{'' @
       quote ''functional'' @ '':'' @ (if functional (categories d) then ''true'' else ''false'') @ '','' @
       quote ''analytics'' @ '':'' @ (if analytics (categories d) then ''true'' else ''false'') @ '','' @
       quote ''performance'' @ '':'' @ (if performance (categories d) then ''true'' else ''false'') @ '','' @
       quote ''advertising'' @ '':'' @ (if advertising (categories d) then ''true'' else ''false'') @ '','' @
       quote ''uncategorized'' @ '':'' @ (if uncategorized (categories d) then ''true'' else ''false'') @ ''}'' @ '','' @
     quote ''timestamp'' @ '':'' @ show_int (timestamp d) @ ''}''"

text \<open>A character that \<open>JSON.stringify\<close> copies into a string literal as it is.\<close>

definition plain :: "char \<Rightarrow> bool" where
  "plain c = (c \<noteq> dquote \<and> c \<noteq> backslash \<and> \<not> (of_char c :: nat) < 32)"

text \<open>
  What the browser guarantees of every cookie it lists, for a cookie with a name: the name
  is not empty, does not start with a space and contains neither \<open>=\<close> nor \<open>;\<close>,
  and the value contains no \<open>;\<close>.
\<close>

definition cookie_ok :: "string \<times> string \<Rightarrow> bool" where
  "cookie_ok nv =
     (fst nv \<noteq> [] \<and> hd (fst nv) \<noteq> CHR '' '' \<and> CHR ''='' \<notin> set (fst nv)
      \<and> CHR '';'' \<notin> set (fst nv) \<and> CHR '';'' \<notin> set (snd nv))"

definition jar_ok :: "(string \<times> string) list \<Rightarrow> bool" where
  "jar_ok cs = list_all cookie_ok cs"

text \<open>
  Closed forms, proved below to be what the program computes for a decision: the
  consent-state map, the signal, the page after \<open>updateConsentMode\<close> and the page after
  \<open>loadCookiesAccordingToConsent\<close>.
\<close>

definition decision_states :: "ConsentDecision \<Rightarrow> jsval" where
  "decision_states d = JObj
       [(''ad_storage'', JStr (if advertising (categories d) then ''granted'' else ''denied'')),
        (''analytics_storage'', JStr (if analytics (categories d) then ''granted'' else ''denied'')),
        (''ad_user_data'', JStr (if advertising (categories d) then ''granted'' else ''denied'')),
        (''ad_personalization'', JStr (if advertising (categories d) then ''granted'' else ''denied'')),
        (''personalization_storage'', JStr (if performance (categories d) then ''granted'' else ''denied'')),
        (''functionality_storage'', JStr ''granted''),
        (''security_storage'', JStr ''granted'')]"

definition decision_gcs :: "ConsentDecision \<Rightarrow> string" where
  "decision_gcs d = (case status d of Accepted \<Rightarrow> ''G111'' | Rejected \<Rightarrow> ''G100'' | Custom \<Rightarrow> ''G101'')"

definition signalled :: "host \<Rightarrow> ConsentDecision \<Rightarrow> page \<Rightarrow> page" where
  "signalled h d s =
     s\<lparr>dataLayer := dataLayer s @
         [JArr [JStr ''consent'', JStr ''update'', decision_states d],
          JObj [(''event'', JStr ''cookie_consent_update''),
                (''consent_mode'', decision_states d),
                (''gcs'', JStr (decision_gcs d)),
                (''timestamp'', JStr (toISOString h (now h)))]],
       console := console s @
         [[JStr ''Consent Mode Updated:'', decision_states d],
          [JStr ''GCS Signal Sent:'', JStr (decision_gcs d)]]\<rparr>"

definition loaded :: "host \<Rightarrow> ConsentDecision \<Rightarrow> page \<Rightarrow> page" where
  "loaded h d s =
     (let s1 = (if analytics (categories d) then loadAnalyticsCookies h s else s);
          s2 = (if advertising (categories d) then loadAdvertisingCookies s1 else s1)
      in if performance (categories d) then loadPerformanceCookies s2 else s2)"

text \<open>The decisions of Accept All and Reject All as records.\<close>

definition accepted_record :: "host \<Rightarrow> ConsentDecision" where
  "accepted_record h =
     \<lparr>status = Accepted, signal = G111,
      categories = \<lparr>functional = True, analytics = True, performance = True, advertising = True,
                    uncategorized = True\<rparr>,
      timestamp = now h\<rparr>"

definition rejected_record :: "host \<Rightarrow> ConsentDecision" where
  "rejected_record h =
     \<lparr>status = Rejected, signal = G100,
      categories = \<lparr>functional = True, analytics = False, performance = False, advertising = False,
                    uncategorized = False\<rparr>,
      timestamp = now h\<rparr>"

section \<open>Well-formed pages and example pages\<close>

text \<open>The seven controls that \<open>initializeCookieConsent\<close> attaches listeners to exist.\<close>

definition controls_present :: "page \<Rightarrow> bool" where
  "controls_present s =
     (''acceptAllBtn'' \<in> set (controls s) \<and> ''rejectAllBtn'' \<in> set (controls s)
      \<and> ''adjustConsentBtn'' \<in> set (controls s) \<and> ''acceptAllSettingsBtn'' \<in> set (controls s)
      \<and> ''rejectAllSettingsBtn'' \<in> set (controls s) \<and> ''saveSettingsBtn'' \<in> set (controls s)
      \<and> ''.close-modal'' \<in> set (controls s))"

text \<open>
  An example host (a fixed clock; a regular-expression engine that finds no match, so that
  every duration is \<open>Session\<close>) and an example page as \<open>injectConsentHTML\<close> leaves
  it, with the analytics toggle switched on.
\<close>

definition example_host :: host where
  "example_host =
     \<lparr>now = 1700000000000,
      toISOString = (\<lambda>t. ''2023-11-14T22:13:20.000Z''),
      toUTCString = (\<lambda>t. ''Thu, 14 Nov 2024 22:13:20 GMT''),
      regexp_match = (\<lambda>pattern subject. Inr None),
      date_parse = (\<lambda>text. None)\<rparr>"

definition example_page :: page where
  "example_page =
     \<lparr>jar = [(''_ga'', ''123''), (''wp-settings'', ''abc'')],
      dataLayer = [],
      console = [],
      banner = Some [],
      modal = Some [],
      controls = [''adjustConsentBtn'', ''rejectAllBtn'', ''acceptAllBtn'', ''.close-modal'',
                  ''rejectAllSettingsBtn'', ''saveSettingsBtn'', ''acceptAllSettingsBtn''],
      toggles = [(''functional'', True), (''analytics'', True), (''performance'', False),
                 (''advertising'', False)],
      listeners = [],
      ga_defined = False,
      fbq = None,
      scripts = []\<rparr>"


text \<open>The decision of a visitor who saved custom settings with analytics on.\<close>

definition example_decision :: ConsentDecision where
  "example_decision =
     \<lparr>status = Custom, signal = G101,
      categories = \<lparr>functional = True, analytics = True, performance = False, advertising = False,
                    uncategorized = False\<rparr>,
      timestamp = 1700000000000\<rparr>"

text \<open>
  The page before rendering, and the snapshot of its two cookies (no uncategorized cookie).
\<close>

definition example_fresh_page :: page where
  "example_fresh_page =
     \<lparr>jar = [(''_ga'', ''123''), (''wp-settings'', ''abc'')],
      dataLayer = [], console = [], banner = None, modal = None, controls = [], toggles = [],
      listeners = [], ga_defined = False, fbq = None, scripts = []\<rparr>"

definition example_snapshot :: "(string \<times> jsval list) list" where
  "example_snapshot =
     [(''functional'', [cookie_entry ''wp-settings'' ''Session'' ''No description available'']),
      (''analytics'', [cookie_entry ''_ga'' ''Session''
          ''Google Analytics cookie used to distinguish users (2 years)'']),
      (''performance'', []), (''advertising'', []), (''uncategorized'', [])]"



section \<open>The classification and the snapshot in closed form\<close>



text \<open>Where the callback puts a cookie of a given name, if anywhere.\<close>

definition scan_target :: "string \<Rightarrow> string option" where
  "scan_target name =
     (case find (\<lambda>pc. string_includes name (fst pc)) cookieDatabase of
        Some pc \<Rightarrow> Some (snd pc)
      | None \<Rightarrow> if name \<noteq> [] then Some ''uncategorized'' else None)"

text \<open>
  The entry the callback builds for a name in a category, and the snapshot after the
  callback has seen a list of names: closed forms, proved below to be what the loop
  computes.
\<close>

definition scan_entry :: "host \<Rightarrow> string \<Rightarrow> string \<Rightarrow> string \<Rightarrow> jsval" where
  "scan_entry h doc category name =
     cookie_entry name
       (case getCookieDuration h doc name of Inl e \<Rightarrow> [] | Inr duration \<Rightarrow> duration)
       (if category = ''uncategorized'' then ''Unknown cookie purpose'' else getCookieDescription name)"

definition scanned :: "host \<Rightarrow> string \<Rightarrow> string list \<Rightarrow> (string \<times> jsval list) list" where
  "scanned h doc names =
     map (\<lambda>category. (category, map (scan_entry h doc category)
                                  (filter (\<lambda>name. scan_target name = Some category) names)))
       [''functional'', ''analytics'', ''performance'', ''advertising'', ''uncategorized'']"


section \<open>Serializing and parsing a decision\<close>

lemma escape_plain: "plain c \<Longrightarrow> escape_char c = [c]"
  by (auto simp: plain_def escape_char_def)

lemma lex_string_plain:
  "\<forall>c\<in>set s. plain c \<Longrightarrow> lex_string acc (s @ dquote # rest) = Inr (rev acc @ s, rest)"
proof (induction s arbitrary: acc)
  case Nil
  show ?case by (cases rest) simp_all
next
  case (Cons c s)
  then have p: "plain c" and IH: "lex_string (c # acc) (s @ dquote # rest) = Inr (rev (c # acc) @ s, rest)"
    by simp_all
  obtain e cs where e: "s @ dquote # rest = e # cs" by (cases "s @ dquote # rest") simp_all
  from p IH show ?case
    unfolding append_Cons e by (simp add: plain_def)
qed

lemma concat_escape_plain: "\<forall>c\<in>set s. plain c \<Longrightarrow> concat (map escape_char s) = s"
  by (induction s) (simp_all add: escape_plain)

lemma tokenize_quote:
  "\<forall>c\<in>set s. plain c \<Longrightarrow> tokenize (quote s @ rest) = cons_token (TStr s) (tokenize rest)"
  by (simp add: quote_def concat_escape_plain tokenize.simps lex_string_plain [unfolded dquote_def]
        json_ws_def dquote_def)

lemma tokenize_punct:
  "tokenize (CHR ''{'' # cs) = cons_token TLBrace (tokenize cs)"
  "tokenize (CHR ''}'' # cs) = cons_token TRBrace (tokenize cs)"
  "tokenize (CHR '':'' # cs) = cons_token TColon (tokenize cs)"
  "tokenize (CHR '','' # cs) = cons_token TComma (tokenize cs)"
  by (simp_all add: tokenize.simps json_ws_def)

lemma tokenize_bool:
  "tokenize ((if b then ''true'' else ''false'') @ rest) = cons_token (TBool b) (tokenize rest)"
  by (cases b) (simp_all add: tokenize.simps json_ws_def dquote_def is_digit_def)

lemma of_char_digit_char: "0 \<le> d \<Longrightarrow> d < 10 \<Longrightarrow> (of_char (digit_char d) :: int) = 48 + d"
  by (simp add: digit_char_def)

lemma digit_char_is_digit: "0 \<le> d \<Longrightarrow> d < 10 \<Longrightarrow> is_digit (digit_char d)"
  by (simp add: is_digit_def of_char_digit_char)

lemma digit_val_digit_char: "0 \<le> d \<Longrightarrow> d < 10 \<Longrightarrow> digit_val (digit_char d) = d"
  by (simp add: digit_val_def of_char_digit_char)

lemma digit_char_0: "digit_char 0 = CHR ''0''"
proof -
  have "(of_char (digit_char 0) :: int) = of_char CHR ''0''" by (simp add: of_char_digit_char)
  then show ?thesis by (simp only: of_char_eq_iff)
qed

lemma show_digits_nonempty: "show_digits n \<noteq> []"
  by (subst show_digits.simps) simp

lemma show_digits_all_digits: "0 \<le> n \<Longrightarrow> \<forall>c\<in>set (show_digits n). is_digit c"
proof (induction n rule: show_digits.induct)
  case (1 n)
  show ?case
  proof (cases "n < 10")
    case True
    with "1.prems" show ?thesis
      by (subst show_digits.simps) (simp add: digit_char_is_digit)
  next
    case False
    with "1.prems" "1.IH" have "\<forall>c\<in>set (show_digits (n div 10)). is_digit c" by simp
    moreover have "is_digit (digit_char (n mod 10))" by (simp add: digit_char_is_digit)
    ultimately show ?thesis using False
      by (subst show_digits.simps) simp
  qed
qed

lemma read_digits_append:
  "\<forall>c\<in>set xs. is_digit c \<Longrightarrow>
   read_digits acc (xs @ r) = read_digits (foldl (\<lambda>a c. a * 10 + digit_val c) acc xs) r"
  by (induction xs arbitrary: acc) simp_all

lemma foldl_show_digits:
  "0 \<le> n \<Longrightarrow> foldl (\<lambda>a c. a * 10 + digit_val c) 0 (show_digits n) = n"
proof (induction n rule: show_digits.induct)
  case (1 n)
  show ?case
  proof (cases "n < 10")
    case True
    with "1.prems" show ?thesis
      by (subst show_digits.simps) (simp add: digit_val_digit_char)
  next
    case False
    with "1.prems" "1.IH" have "foldl (\<lambda>a c. a * 10 + digit_val c) 0 (show_digits (n div 10)) = n div 10"
      by simp
    then show ?thesis using False
      by (subst show_digits.simps) (simp add: digit_val_digit_char)
  qed
qed

lemma read_digits_show_digits:
  assumes "0 \<le> n" and "r = [] \<or> \<not> is_digit (hd r)"
  shows "read_digits 0 (show_digits n @ r) = (n, r)"
proof -
  from assms(2) have "read_digits n r = (n, r)" by (cases r) auto
  with assms(1) show ?thesis
    by (simp add: read_digits_append show_digits_all_digits foldl_show_digits)
qed

lemma hd_show_digits_zero: "0 \<le> n \<Longrightarrow> (hd (show_digits n) = CHR ''0'') = (n = 0)"
proof (induction n rule: show_digits.induct)
  case (1 n)
  show ?case
  proof (cases "n < 10")
    case True
    have "(digit_char n = CHR ''0'') = (n = 0)"
    proof
      assume "digit_char n = CHR ''0''"
      then have "(of_char (digit_char n) :: int) = of_char CHR ''0''" by simp
      with True "1.prems" show "n = 0" by (simp add: of_char_digit_char)
    qed (simp add: digit_char_0)
    with True show ?thesis by (subst show_digits.simps) simp
  next
    case False
    with "1.prems" "1.IH" have "(hd (show_digits (n div 10)) = CHR ''0'') = (n div 10 = 0)" by simp
    moreover from False "1.prems" have "n div 10 \<noteq> 0" "n \<noteq> 0" by simp_all
    ultimately show ?thesis using False
      by (subst show_digits.simps) (simp add: show_digits_nonempty)
  qed
qed

lemma show_digits_zero: "show_digits 0 = ''0''"
  by (subst show_digits.simps) (simp add: digit_char_0)

lemma lex_number_show_digits:
  assumes "0 \<le> n" and "n \<le> 9007199254740992"
    and "r = [] \<or> \<not> (is_digit (hd r) \<or> hd r = CHR ''.'' \<or> hd r = CHR ''e'' \<or> hd r = CHR ''E'')"
  shows "lex_number (show_digits n @ r) = Inr (n, r)"
    and "lex_number (CHR ''-'' # show_digits n @ r) = Inr (- n, r)"
proof -
  obtain c cs where s: "show_digits n = c # cs"
    using show_digits_nonempty [of n] by (cases "show_digits n") simp_all
  from show_digits_all_digits [OF assms(1)] s have d: "is_digit c" by simp
  then have nm: "c \<noteq> CHR ''-''" by (auto simp: is_digit_def)
  from assms(3) have r: "r = [] \<or> \<not> is_digit (hd r)" by auto
  have rd: "(if c = CHR ''0'' then (0, cs @ r) else read_digits 0 (c # cs @ r)) = (n, r)"
  proof (cases "c = CHR ''0''")
    case True
    with hd_show_digits_zero [OF assms(1)] s have "n = 0" by simp
    with s True show ?thesis by (simp add: show_digits_zero)
  next
    case False
    from read_digits_show_digits [OF assms(1) r] s have "read_digits 0 (c # cs @ r) = (n, r)" by simp
    with False show ?thesis by simp
  qed
  from assms(3) have e: "\<not> (case r of [] \<Rightarrow> False | x # xs \<Rightarrow> x = CHR ''.'' \<or> x = CHR ''e'' \<or> x = CHR ''E'')"
    by (cases r) auto
  show "lex_number (show_digits n @ r) = Inr (n, r)"
    unfolding lex_number_def s using d nm rd e assms(2) by (simp add: Let_def)
  show "lex_number (CHR ''-'' # show_digits n @ r) = Inr (- n, r)"
    unfolding lex_number_def s using d nm rd e assms(2) by (simp add: Let_def)
qed

lemma tokenize_show_int:
  assumes "time_value t"
  shows "tokenize (show_int t @ CHR ''}'' # rest) = cons_token (TNum t) (tokenize (CHR ''}'' # rest))"
proof -
  have r: "CHR ''}'' # rest = [] \<or> \<not> (is_digit (hd (CHR ''}'' # rest)) \<or> hd (CHR ''}'' # rest) = CHR ''.''
      \<or> hd (CHR ''}'' # rest) = CHR ''e'' \<or> hd (CHR ''}'' # rest) = CHR ''E'')"
    by (simp add: is_digit_def)
  show ?thesis
  proof (cases "t < 0")
    case True
    with assms have n: "0 \<le> - t" "- t \<le> 9007199254740992" by (simp_all add: time_value_def)
    from lex_number_show_digits(2) [OF n r] True show ?thesis
      by (simp add: show_int_def tokenize.simps(2) [of "CHR ''-''"] json_ws_def dquote_def)
  next
    case False
    with assms have n: "0 \<le> t" "t \<le> 9007199254740992" by (simp_all add: time_value_def)
    obtain c cs where s: "show_digits t = c # cs"
      using show_digits_nonempty [of t] by (cases "show_digits t") simp_all
    from show_digits_all_digits [OF n(1)] s have d: "is_digit c" by simp
    then have ne: "\<not> json_ws c" "c \<noteq> CHR ''{''" "c \<noteq> CHR ''}''" "c \<noteq> CHR ''[''" "c \<noteq> CHR '']''"
        "c \<noteq> CHR '':''" "c \<noteq> CHR '',''" "c \<noteq> dquote"
      by (auto simp: is_digit_def json_ws_def dquote_def)
    from lex_number_show_digits(1) [OF n r] have "lex_number (c # cs @ CHR ''}'' # rest) = Inr (t, CHR ''}'' # rest)"
      by (simp add: s)
    with False d ne show ?thesis
      by (simp add: show_int_def s tokenize.simps(2) [of c])
  qed
qed

lemma plain_status_text: "\<forall>c\<in>set (status_text st). plain c"
  by (cases st) (simp_all add: plain_def dquote_def backslash_def)

lemma plain_gcs_text: "\<forall>c\<in>set (gcs_text g). plain c"
  by (cases g) (simp_all add: plain_def dquote_def backslash_def)

lemma plain_keys:
  "\<forall>c\<in>set ''status''. plain c" "\<forall>c\<in>set ''gcs''. plain c" "\<forall>c\<in>set ''categories''. plain c"
  "\<forall>c\<in>set ''timestamp''. plain c" "\<forall>c\<in>set ''functional''. plain c" "\<forall>c\<in>set ''analytics''. plain c"
  "\<forall>c\<in>set ''performance''. plain c" "\<forall>c\<in>set ''advertising''. plain c" "\<forall>c\<in>set ''uncategorized''. plain c"
  by (simp_all add: plain_def dquote_def backslash_def)

lemma ser_decision: "ser fmt (decision_obj d) = Some (decision_text d)"
  by (simp add: decision_obj_def decision_text_def split del: if_split)

lemma tokenize_decision:
  assumes "time_value (timestamp d)"
  shows "tokenize (decision_text d) =
     Inr [TLBrace, TStr ''status'', TColon, TStr (status_text (status d)), TComma,
          TStr ''gcs'', TColon, TStr (gcs_text (signal d)), TComma,
          TStr ''categories'', TColon, TLBrace,
            TStr ''functional'', TColon, TBool (functional (categories d)), TComma,
            TStr ''analytics'', TColon, TBool (analytics (categories d)), TComma,
            TStr ''performance'', TColon, TBool (performance (categories d)), TComma,
            TStr ''advertising'', TColon, TBool (advertising (categories d)), TComma,
            TStr ''uncategorized'', TColon, TBool (uncategorized (categories d)), TRBrace, TComma,
          TStr ''timestamp'', TColon, TNum (timestamp d), TRBrace]"
  unfolding decision_text_def
  by (simp add: tokenize_punct tokenize_quote tokenize_bool tokenize_show_int [OF assms] plain_keys
        plain_status_text plain_gcs_text cons_token_def tokenize.simps(1) split del: if_split)

lemma JSON_parse_decision:
  assumes "time_value (timestamp d)"
  shows "JSON_parse (decision_text d) = Inr (decision_obj d)"
  by (simp add: JSON_parse_def tokenize_decision [OF assms] bind_js_def start_value_def close_value_def
        decision_obj_def)

section \<open>The cookie round trip\<close>

lemma show_int_chars: "c \<in> set (show_int t) \<Longrightarrow> c = CHR ''-'' \<or> is_digit c"
  using show_digits_all_digits [of t] show_digits_all_digits [of "- t"]
  by (auto simp: show_int_def split: if_splits)

lemma semicolon_not_in_show_int: "CHR '';'' \<notin> set (show_int t)"
  using show_int_chars [of "CHR '';''" t] by (auto simp: is_digit_def)

lemma semicolon_not_in_status: "CHR '';'' \<notin> set (status_text st)" "CHR '';'' \<notin> set (gcs_text g)"
  by (cases st; simp) (cases g; simp)

lemma quote_plain: "\<forall>c\<in>set s. plain c \<Longrightarrow> quote s = dquote # s @ [dquote]"
  by (simp add: quote_def concat_escape_plain)

lemma semicolon_not_in_decision_text: "CHR '';'' \<notin> set (decision_text d)"
  by (simp add: decision_text_def quote_plain plain_keys plain_status_text plain_gcs_text
        semicolon_not_in_show_int semicolon_not_in_status dquote_def)

lemma strip_wsp_id:
  assumes "s = a # m @ [b]" "\<not> wsp a" "\<not> wsp b"
  shows "strip_wsp s = s"
  using assms by (simp add: strip_wsp_def)

lemma strip_wsp_decision_text: "strip_wsp (decision_text d) = decision_text d"
proof -
  have "\<exists>m. decision_text d = CHR ''{'' # m @ [CHR ''}'']"
    by (simp add: decision_text_def)
  then obtain m where "decision_text d = CHR ''{'' # m @ [CHR ''}'']" ..
  then show ?thesis by (rule strip_wsp_id) (simp_all add: wsp_def)
qed

lemma cookie_pair_consent:
  assumes "CHR '';'' \<notin> set v" "strip_wsp v = v"
  shows "cookie_pair (''cookie_consent'' @ ''='' @ v @ CHR '';'' # rest) = (''cookie_consent'', v)"
proof -
  have "takeWhile (\<lambda>c. c \<noteq> CHR '';'') (''cookie_consent='' @ v @ CHR '';'' # rest) = ''cookie_consent='' @ v"
  proof -
    from assms(1) have "takeWhile (\<lambda>c. c \<noteq> CHR '';'') (v @ CHR '';'' # rest) = v"
      by (subst takeWhile_append2) auto
    then show ?thesis by simp
  qed
  then show ?thesis
    using assms(2) by (simp add: cookie_pair_def strip_wsp_def wsp_def)
qed

lemma setCookie_consent:
  assumes "CHR '';'' \<notin> set v" "strip_wsp v = v"
  shows "setCookie h ''cookie_consent'' v 365 s = s\<lparr>jar := AList.update ''cookie_consent'' v (jar s)\<rparr>"
proof -
  have v: "(if v \<noteq> [] then v else []) = v" by simp
  have "cookie_assign (''cookie_consent'' @ ''='' @ v @ CHR '';'' # rest) cs = AList.update ''cookie_consent'' v cs"
    for rest cs
    by (simp only: cookie_assign_def cookie_pair_consent [OF assms] Let_def) simp
  from this [of "'' expires='' @ toUTCString h (now h + 365 * 24 * 60 * 60 * 1000) @ ''; path=/; SameSite=Lax; Secure''"]
  show ?thesis
    unfolding setCookie_def Let_def v by simp
qed

lemma persist_decision:
  "persist h (decision_obj d) s = s\<lparr>jar := AList.update ''cookie_consent'' (decision_text d) (jar s)\<rparr>"
  by (simp add: persist_def JSON_stringify_def ser_decision setCookie_consent
        semicolon_not_in_decision_text strip_wsp_decision_text)

lemma split_on_nonempty: "split_on c s \<noteq> []"
  by (induction s) (simp_all split: list.splits)

lemma split_on_notin: "c \<notin> set xs \<Longrightarrow> split_on c xs = [xs]"
  by (induction xs) auto

lemma split_on_append: "c \<notin> set xs \<Longrightarrow> split_on c (xs @ c # ys) = xs # split_on c ys"
  by (induction xs) auto

lemma hd_split_on: "hd (split_on c s) = takeWhile (\<lambda>x. x \<noteq> c) s"
  using split_on_nonempty [of c] by (induction s) (auto split: list.splits)

lemma semicolon_cookie_text: "cookie_ok nv \<Longrightarrow> CHR '';'' \<notin> set (cookie_text nv)"
  by (auto simp: cookie_ok_def cookie_text_def)

lemma split_join:
  "\<forall>t\<in>set (t # ts). CHR '';'' \<notin> set t \<Longrightarrow>
   split_on CHR '';'' (join ''; '' (t # ts)) = t # map (\<lambda>x. CHR '' '' # x) ts"
proof (induction ts arbitrary: t)
  case Nil
  then show ?case by (simp add: split_on_notin)
next
  case (Cons u us)
  then have IH: "split_on CHR '';'' (join ''; '' (u # us)) = u # map (\<lambda>x. CHR '' '' # x) us"
    and t: "CHR '';'' \<notin> set t" by simp_all
  have "join ''; '' (t # u # us) = t @ CHR '';'' # CHR '' '' # join ''; '' (u # us)" by simp
  with t IH show ?case by (simp add: split_on_append del: join.simps)
qed

lemma prefix_name_eq:
  assumes "CHR ''='' \<notin> set n" "CHR ''='' \<notin> set m"
  shows "prefix (n @ ''='') (m @ ''='' @ v) = (n = m)"
proof
  assume "prefix (n @ ''='') (m @ ''='' @ v)"
  then obtain zs where "m @ ''='' @ v = (n @ ''='') @ zs" by (auto simp: prefix_def)
  then have "takeWhile (\<lambda>c. c \<noteq> CHR ''='') (m @ CHR ''='' # v) = takeWhile (\<lambda>c. c \<noteq> CHR ''='') (n @ CHR ''='' # zs)"
    by simp
  moreover from assms(2) have "takeWhile (\<lambda>c. c \<noteq> CHR ''='') (m @ CHR ''='' # v) = m"
    by (subst takeWhile_append2) auto
  moreover from assms(1) have "takeWhile (\<lambda>c. c \<noteq> CHR ''='') (n @ CHR ''='' # zs) = n"
    by (subst takeWhile_append2) auto
  ultimately show "n = m" by simp
next
  assume "n = m"
  then show "prefix (n @ ''='') (m @ ''='' @ v)" by simp
qed

lemma getCookie_entry:
  assumes "cookie_ok nv" "CHR ''='' \<notin> set n"
  shows "getCookie_loop (n @ ''='') (cookie_text nv # ca) =
           (if fst nv = n then Some (snd nv) else getCookie_loop (n @ ''='') ca)"
    and "getCookie_loop (n @ ''='') ((CHR '' '' # cookie_text nv) # ca) =
           (if fst nv = n then Some (snd nv) else getCookie_loop (n @ ''='') ca)"
proof -
  obtain m v where nv: "nv = (m, v)" by (cases nv)
  with assms(1) have m: "m \<noteq> []" "hd m \<noteq> CHR '' ''" "CHR ''='' \<notin> set m" by (simp_all add: cookie_ok_def)
  then have t: "cookie_text (m, v) = m @ ''='' @ v" by (simp add: cookie_text_def)
  from m have d: "dropWhile (\<lambda>x. x = CHR '' '') (m @ ''='' @ v) = m @ ''='' @ v"
    by (cases m) simp_all
  have p: "prefix (n @ ''='') (m @ ''='' @ v) = (n = m)" by (rule prefix_name_eq [OF assms(2) m(3)])
  show "getCookie_loop (n @ ''='') (cookie_text nv # ca) =
           (if fst nv = n then Some (snd nv) else getCookie_loop (n @ ''='') ca)"
    using d p unfolding nv t by (auto simp: Let_def)
  show "getCookie_loop (n @ ''='') ((CHR '' '' # cookie_text nv) # ca) =
           (if fst nv = n then Some (snd nv) else getCookie_loop (n @ ''='') ca)"
    using d p unfolding nv t by (auto simp: Let_def)
qed

lemma getCookie_loop_rest:
  "list_all cookie_ok cs \<Longrightarrow> CHR ''='' \<notin> set n \<Longrightarrow>
   getCookie_loop (n @ ''='') (map (\<lambda>x. CHR '' '' # x) (map cookie_text cs)) = map_of cs n"
proof (induction cs)
  case Nil
  then show ?case by simp
next
  case (Cons nv cs)
  then have ok: "cookie_ok nv" and IH: "getCookie_loop (n @ ''='') (map (\<lambda>x. CHR '' '' # x) (map cookie_text cs)) = map_of cs n"
    by simp_all
  obtain m v where nv: "nv = (m, v)" by (cases nv)
  show ?case
    using getCookie_entry(2) [OF ok Cons.prems(2)] IH by (auto simp: nv simp del: getCookie_loop.simps)
qed

lemma getCookie_map_of:
  assumes "jar_ok (jar s)" "CHR ''='' \<notin> set n"
  shows "getCookie n s = map_of (jar s) n"
proof (cases "jar s")
  case Nil
  then show ?thesis by (simp add: getCookie_def document_cookie_def)
next
  case (Cons nv cs)
  with assms(1) have ok: "cookie_ok nv" "list_all cookie_ok cs" by (simp_all add: jar_ok_def)
  then have "\<forall>t\<in>set (cookie_text nv # map cookie_text cs). CHR '';'' \<notin> set t"
    by (auto simp: list_all_iff semicolon_cookie_text)
  from split_join [OF this] have "split_on CHR '';'' (document_cookie (jar s)) =
      cookie_text nv # map (\<lambda>x. CHR '' '' # x) (map cookie_text cs)"
    by (simp add: document_cookie_def Cons del: join.simps)
  moreover obtain m v where nv: "nv = (m, v)" by (cases nv)
  ultimately show ?thesis
    using getCookie_entry(1) [OF ok(1) assms(2)] getCookie_loop_rest [OF ok(2) assms(2)]
    by (auto simp: getCookie_def Cons nv simp del: getCookie_loop.simps)
qed

lemma jar_ok_update:
  assumes "jar_ok cs" "cookie_ok (n, v)"
  shows "jar_ok (AList.update n v cs)"
  using assms unfolding jar_ok_def by (induction cs) auto

lemma cookie_ok_consent: "cookie_ok (''cookie_consent'', decision_text d)"
  by (simp add: cookie_ok_def semicolon_not_in_decision_text)

lemma getCookie_persisted:
  assumes "jar_ok (jar s)"
  shows "getCookie ''cookie_consent'' (persist h (decision_obj d) s) = Some (decision_text d)"
proof -
  have "jar_ok (jar (persist h (decision_obj d) s))"
    by (simp add: persist_decision jar_ok_update [OF assms cookie_ok_consent])
  from getCookie_map_of [OF this, of "''cookie_consent''"] show ?thesis
    by (simp add: persist_decision update_conv')
qed

section \<open>The writer operations on decisions\<close>

lemma consentStates_decision:
  "consentStates (decision_obj d) = Inr (JObj
       [(''ad_storage'', JStr (if advertising (categories d) then ''granted'' else ''denied'')),
        (''analytics_storage'', JStr (if analytics (categories d) then ''granted'' else ''denied'')),
        (''ad_user_data'', JStr (if advertising (categories d) then ''granted'' else ''denied'')),
        (''ad_personalization'', JStr (if advertising (categories d) then ''granted'' else ''denied'')),
        (''personalization_storage'', JStr (if performance (categories d) then ''granted'' else ''denied'')),
        (''functionality_storage'', JStr ''granted''),
        (''security_storage'', JStr ''granted'')])"
  by (simp add: consentStates_def decision_obj_def get_member2_def bind_js_def granted_or_denied_def)

lemma status_decision:
  "get_member (decision_obj d) ''status'' = Inr (JStr (status_text (status d)))"
  by (simp add: decision_obj_def)

lemma gcsSignal_status:
  "gcsSignal (JStr (status_text st)) = (case st of Accepted \<Rightarrow> ''G111'' | Rejected \<Rightarrow> ''G100'' | Custom \<Rightarrow> ''G101'')"
  by (cases st) (simp_all add: gcsSignal_def)

lemma updateConsentMode_decision:
  "updateConsentMode h (decision_obj d) s = Inr (signalled h d s)"
  by (simp add: updateConsentMode_def consentStates_decision status_decision gcsSignal_status bind_js_def
        gtag_def console_log_def Let_def signalled_def decision_states_def decision_gcs_def)

lemma categories_decision:
  "get_member2 (decision_obj d) ''categories'' ''functional'' = Inr (JBool (functional (categories d)))"
  "get_member2 (decision_obj d) ''categories'' ''analytics'' = Inr (JBool (analytics (categories d)))"
  "get_member2 (decision_obj d) ''categories'' ''performance'' = Inr (JBool (performance (categories d)))"
  "get_member2 (decision_obj d) ''categories'' ''advertising'' = Inr (JBool (advertising (categories d)))"
  "get_member2 (decision_obj d) ''categories'' ''uncategorized'' = Inr (JBool (uncategorized (categories d)))"
  by (simp_all add: decision_obj_def get_member2_def bind_js_def)

lemma loadCookies_decision:
  "loadCookiesAccordingToConsent h (decision_obj d) s = Inr (loaded h d s)"
  by (simp add: loadCookiesAccordingToConsent_def categories_decision bind_js_def Let_def loaded_def)

lemma jar_loaders:
  "jar (loadAnalyticsCookies h s) = jar s"
  "jar (loadAdvertisingCookies s) = jar s"
  "jar (loadPerformanceCookies s) = jar s"
  by (simp_all add: loadAnalyticsCookies_def loadAdvertisingCookies_def loadPerformanceCookies_def
        console_log_def gtag_def Let_def)

lemma jar_signalled: "jar (signalled h d s) = jar s"
  by (simp add: signalled_def)

lemma jar_loaded: "jar (loaded h d s) = jar s"
  by (simp add: loaded_def jar_loaders Let_def)

lemma accepted_decision:
  "accepted_consentData h = decision_obj
     \<lparr>status = Accepted, signal = G111,
      categories = \<lparr>functional = True, analytics = True, performance = True, advertising = True,
                    uncategorized = True\<rparr>,
      timestamp = now h\<rparr>"
  by (simp add: accepted_consentData_def decision_obj_def)

lemma rejected_decision:
  "rejected_consentData h = decision_obj
     \<lparr>status = Rejected, signal = G100,
      categories = \<lparr>functional = True, analytics = False, performance = False, advertising = False,
                    uncategorized = False\<rparr>,
      timestamp = now h\<rparr>"
  by (simp add: rejected_consentData_def decision_obj_def)

lemma custom_decision:
  assumes "custom_consentData h s = Inr v"
  shows "\<exists>a p ad u. v = decision_obj
     \<lparr>status = Custom, signal = G101,
      categories = \<lparr>functional = True, analytics = a, performance = p, advertising = ad,
                    uncategorized = u\<rparr>,
      timestamp = now h\<rparr>
      \<and> map_of (toggles s) ''analytics'' = Some a
      \<and> map_of (toggles s) ''performance'' = Some p
      \<and> map_of (toggles s) ''advertising'' = Some ad
      \<and> u = (case map_of (toggles s) ''uncategorized'' of None \<Rightarrow> False | Some b \<Rightarrow> b)"
  using assms
  by (auto simp: custom_consentData_def toggle_checked_def bind_js_def decision_obj_def
      split: option.splits if_splits)

lemma acceptAllCookies_result:
  "acceptAllCookies h s =
     Inr (loaded h (accepted_record h) (signalled h (accepted_record h)
            (s\<lparr>jar := AList.update ''cookie_consent'' (decision_text (accepted_record h)) (jar s)\<rparr>)))"
  unfolding acceptAllCookies_def Let_def accepted_decision accepted_record_def [symmetric]
  by (simp add: updateConsentMode_decision loadCookies_decision persist_decision bind_js_def)

lemma rejectAllCookies_result:
  "rejectAllCookies h s =
     Inr (signalled h (rejected_record h)
            (s\<lparr>jar := AList.update ''cookie_consent'' (decision_text (rejected_record h)) (jar s)\<rparr>))"
  unfolding rejectAllCookies_def Let_def rejected_decision rejected_record_def [symmetric]
  by (simp add: updateConsentMode_decision persist_decision)

lemma saveCustomSettings_result:
  assumes "custom_consentData h s = Inr (decision_obj d)"
  shows "saveCustomSettings h s =
     Inr (loaded h d (signalled h d
            (s\<lparr>jar := AList.update ''cookie_consent'' (decision_text d) (jar s)\<rparr>)))"
  unfolding saveCustomSettings_def assms
  by (simp add: updateConsentMode_decision loadCookies_decision persist_decision bind_js_def)

section \<open>Consent signalling and the decisions built\<close>

text \<open>
  C1. For every consent decision passed to \<open>updateConsentMode\<close>, the call succeeds and the
  consent-state map it computes, passes to \<open>gtag('consent', 'update', ...)\<close> and pushes
  as \<open>consent_mode\<close> of the update event has exactly the seven keys of the source;
  \<open>ad_storage\<close>, \<open>ad_user_data\<close> and \<open>ad_personalization\<close> are granted when the
  advertising category is true and denied otherwise, \<open>analytics_storage\<close> follows the
  analytics category, \<open>personalization_storage\<close> the performance category, and
  \<open>functionality_storage\<close> and \<open>security_storage\<close> are always granted.
\<close>

theorem updateConsentMode_consent_states:
  "\<exists>states s' gcs ts.
     consentStates (decision_obj d) = Inr (JObj states)
     \<and> updateConsentMode h (decision_obj d) s = Inr s'
     \<and> dataLayer s' = dataLayer s @
           [JArr [JStr ''consent'', JStr ''update'', JObj states],
            JObj [(''event'', JStr ''cookie_consent_update''), (''consent_mode'', JObj states),
                  (''gcs'', gcs), (''timestamp'', ts)]]
     \<and> map fst states = [''ad_storage'', ''analytics_storage'', ''ad_user_data'', ''ad_personalization'',
                         ''personalization_storage'', ''functionality_storage'', ''security_storage'']
     \<and> map_of states ''ad_storage'' = Some (JStr (if advertising (categories d) then ''granted'' else ''denied''))
     \<and> map_of states ''ad_user_data'' = Some (JStr (if advertising (categories d) then ''granted'' else ''denied''))
     \<and> map_of states ''ad_personalization'' = Some (JStr (if advertising (categories d) then ''granted'' else ''denied''))
     \<and> map_of states ''analytics_storage'' = Some (JStr (if analytics (categories d) then ''granted'' else ''denied''))
     \<and> map_of states ''personalization_storage'' = Some (JStr (if performance (categories d) then ''granted'' else ''denied''))
     \<and> map_of states ''functionality_storage'' = Some (JStr ''granted'')
     \<and> map_of states ''security_storage'' = Some (JStr ''granted'')"
  by (simp add: updateConsentMode_decision consentStates_decision signalled_def decision_states_def)

text \<open>
  C2. The GCS signal that \<open>updateConsentMode\<close> pushes in the update event and logs is
  determined by the status of the decision alone, whatever the categories, the signal
  field, the timestamp, the host and the page: G111 for accepted, G100 for rejected, G101
  for custom. The call succeeds for every decision.
\<close>

theorem updateConsentMode_gcs_by_status:
  "\<exists>s' event.
     updateConsentMode h (decision_obj d) s = Inr s'
     \<and> dataLayer s' = butlast (dataLayer s') @ [event]
     \<and> get_member event ''gcs'' =
         Inr (JStr (case status d of Accepted \<Rightarrow> ''G111'' | Rejected \<Rightarrow> ''G100'' | Custom \<Rightarrow> ''G101''))
     \<and> last (console s') =
         [JStr ''GCS Signal Sent:'',
          JStr (case status d of Accepted \<Rightarrow> ''G111'' | Rejected \<Rightarrow> ''G100'' | Custom \<Rightarrow> ''G101'')]
     \<and> gcsSignal (JStr (status_text (status d))) =
         (case status d of Accepted \<Rightarrow> ''G111'' | Rejected \<Rightarrow> ''G100'' | Custom \<Rightarrow> ''G101'')"
  by (simp add: updateConsentMode_decision signalled_def decision_gcs_def gcsSignal_status butlast_append)

text \<open>
  C3. In every execution \<open>acceptAllCookies\<close> builds the decision with status accepted
  and all five categories true, and \<open>rejectAllCookies\<close> the decision with status rejected,
  functional true and the four other categories false; each call succeeds and stores the
  serialization of that decision in the cookie \<open>cookie_consent\<close>.
\<close>

theorem accept_reject_categories:
  "(\<exists>s' text. acceptAllCookies h s = Inr s'
      \<and> JSON_stringify h (accepted_consentData h) = Some text
      \<and> jar s' = AList.update ''cookie_consent'' text (jar s))
   \<and> get_member (accepted_consentData h) ''categories'' =
        Inr (JObj [(''functional'', JBool True), (''analytics'', JBool True), (''performance'', JBool True),
                   (''advertising'', JBool True), (''uncategorized'', JBool True)])
   \<and> accepted_consentData h = decision_obj
        \<lparr>status = Accepted, signal = G111,
         categories = \<lparr>functional = True, analytics = True, performance = True, advertising = True,
                       uncategorized = True\<rparr>,
         timestamp = now h\<rparr>
   \<and> (\<exists>s' text. rejectAllCookies h s = Inr s'
      \<and> JSON_stringify h (rejected_consentData h) = Some text
      \<and> jar s' = AList.update ''cookie_consent'' text (jar s))
   \<and> get_member (rejected_consentData h) ''categories'' =
        Inr (JObj [(''functional'', JBool True), (''analytics'', JBool False), (''performance'', JBool False),
                   (''advertising'', JBool False), (''uncategorized'', JBool False)])
   \<and> rejected_consentData h = decision_obj
        \<lparr>status = Rejected, signal = G100,
         categories = \<lparr>functional = True, analytics = False, performance = False, advertising = False,
                       uncategorized = False\<rparr>,
         timestamp = now h\<rparr>"
  by (simp add: acceptAllCookies_result rejectAllCookies_result jar_loaded jar_signalled
        JSON_stringify_def accepted_decision rejected_decision ser_decision
        accepted_record_def [symmetric] rejected_record_def [symmetric])
    (simp add: decision_obj_def accepted_record_def rejected_record_def)

section \<open>Persistence, initialization and the click handlers\<close>

lemma register_listeners_result:
  assumes "controls_present s"
  shows "register_listeners s =
     Inr (s\<lparr>listeners := listeners s @
        [(''acceptAllBtn'', AcceptFromBanner), (''rejectAllBtn'', RejectFromBanner),
         (''adjustConsentBtn'', Customize), (''acceptAllSettingsBtn'', AcceptFromSettings),
         (''rejectAllSettingsBtn'', RejectFromSettings), (''saveSettingsBtn'', SaveFromSettings),
         (''.close-modal'', CloseSettings)]\<rparr>)"
  using assms by (simp add: register_listeners_def addEventListener_def bind_js_def controls_present_def)

lemma controls_signalled: "controls (signalled h d s) = controls s"
  by (simp add: signalled_def)

lemma controls_loaded: "controls (loaded h d s) = controls s"
  by (simp add: loaded_def loadAnalyticsCookies_def loadAdvertisingCookies_def loadPerformanceCookies_def
        console_log_def gtag_def Let_def)

lemma banner_signalled: "banner (signalled h d s) = banner s"
  by (simp add: signalled_def)

lemma banner_loaded: "banner (loaded h d s) = banner s"
  by (simp add: loaded_def loadAnalyticsCookies_def loadAdvertisingCookies_def loadPerformanceCookies_def
        console_log_def gtag_def Let_def)

lemma initialize_decided:
  assumes "getCookie ''cookie_consent'' s = Some (decision_text d)" "time_value (timestamp d)"
    "controls_present s"
  shows "\<exists>s'. initializeCookieConsent h detected s = Inr s' \<and> banner s' = banner s"
proof -
  have ne: "decision_text d \<noteq> []" by (simp add: decision_text_def)
  have cp: "controls_present (loaded h d (signalled h d s))"
    using assms(3) by (simp add: controls_present_def controls_loaded controls_signalled)
  show ?thesis
    by (simp add: initializeCookieConsent_def assms(1) ne JSON_parse_decision [OF assms(2)]
          updateConsentMode_decision loadCookies_decision bind_js_def
          register_listeners_result [OF cp] banner_loaded banner_signalled)
qed

text \<open>
  C8. Round trip. For every decision with a time value as timestamp, and every well-formed
  cookie store: \<open>JSON.stringify\<close> yields a text; after
  \<open>setCookie('cookie_consent', text, 365)\<close> a page with that cookie store reads the same
  text back with \<open>getCookie\<close>, \<open>JSON.parse\<close> of it is the decision persisted, and
  \<open>initializeCookieConsent\<close> on that page (its controls rendered) succeeds and leaves the
  display of the banner as it was: \<open>showCookieBanner\<close> is not called.
\<close>

theorem consent_round_trip:
  assumes "jar_ok (jar s)" and "time_value (timestamp d)"
    and "jar s' = jar (persist h (decision_obj d) s)" and "controls_present s'"
  shows "\<exists>text s''.
     JSON_stringify h (decision_obj d) = Some text
     \<and> persist h (decision_obj d) s = setCookie h ''cookie_consent'' text 365 s
     \<and> getCookie ''cookie_consent'' s' = Some text
     \<and> JSON_parse text = Inr (decision_obj d)
     \<and> initializeCookieConsent h' detected s' = Inr s''
     \<and> banner s'' = banner s'"
proof -
  have "jar_ok (jar s')"
    by (simp add: assms(3) persist_decision jar_ok_update [OF assms(1) cookie_ok_consent])
  from getCookie_map_of [OF this, of "''cookie_consent''"]
  have g: "getCookie ''cookie_consent'' s' = Some (decision_text d)"
    by (simp add: assms(3) persist_decision update_conv')
  from initialize_decided [OF g assms(2) assms(4)]
  obtain s'' where "initializeCookieConsent h' detected s' = Inr s''" "banner s'' = banner s'"
    by blast
  with g show ?thesis
    by (simp add: JSON_stringify_def ser_decision JSON_parse_decision [OF assms(2)] persist_def)
qed

theorem consent_round_trip_witness:
  "jar_ok (jar example_page) \<and> time_value (timestamp example_decision)
   \<and> controls_present (persist example_host (decision_obj example_decision) example_page)
   \<and> (\<exists>text s''.
     JSON_stringify example_host (decision_obj example_decision) = Some text
     \<and> persist example_host (decision_obj example_decision) example_page =
         setCookie example_host ''cookie_consent'' text 365 example_page
     \<and> getCookie ''cookie_consent'' (persist example_host (decision_obj example_decision) example_page) = Some text
     \<and> JSON_parse text = Inr (decision_obj example_decision)
     \<and> initializeCookieConsent example_host empty_result
           (persist example_host (decision_obj example_decision) example_page) = Inr s''
     \<and> banner s'' = banner (persist example_host (decision_obj example_decision) example_page))"
proof -
  have 1: "jar_ok (jar example_page)"
    by (simp add: example_page_def jar_ok_def cookie_ok_def)
  have 2: "time_value (timestamp example_decision)"
    by (simp add: example_decision_def time_value_def)
  have 3: "controls_present (persist example_host (decision_obj example_decision) example_page)"
    by (simp add: persist_decision controls_present_def example_page_def)
  from consent_round_trip [OF 1 2 refl 3, where h' = example_host and detected = empty_result] 1 2 3
  show ?thesis by blast
qed

lemma getCookie_after_write:
  assumes "jar_ok (jar s)" "jar s' = AList.update ''cookie_consent'' (decision_text d) (jar s)"
  shows "getCookie ''cookie_consent'' s' = Some (decision_text d)"
proof -
  have "jar_ok (jar s')"
    by (simp add: assms(2) jar_ok_update [OF assms(1) cookie_ok_consent])
  from getCookie_map_of [OF this, of "''cookie_consent''"] show ?thesis
    by (simp add: assms(2) update_conv')
qed

lemma persisted_functional:
  assumes "jar_ok (jar s)" "time_value (timestamp d)" "functional (categories d)"
    "jar s' = AList.update ''cookie_consent'' (decision_text d) (jar s)"
  shows "\<exists>text obj. getCookie ''cookie_consent'' s' = Some text \<and> JSON_parse text = Inr obj
           \<and> get_member2 obj ''categories'' ''functional'' = Inr (JBool True)"
  using getCookie_after_write [OF assms(1) assms(4)] JSON_parse_decision [OF assms(2)] assms(3)
    categories_decision(1) [of d]
  by simp

text \<open>
  C4. Whatever the state of the toggles, each of the three writer operations, where it
  completes, leaves in the cookie \<open>cookie_consent\<close> a text that parses to an object
  whose \<open>categories.functional\<close> is \<open>true\<close>. \<open>acceptAllCookies\<close> and
  \<open>rejectAllCookies\<close> always complete; \<open>saveCustomSettings\<close> completes unless a toggle
  it reads is missing, in which case it throws while building the decision, before
  anything is written.
\<close>

theorem writers_keep_functional:
  assumes "jar_ok (jar s)" and "time_value (now h)"
  shows "(\<exists>s' text obj. acceptAllCookies h s = Inr s'
            \<and> getCookie ''cookie_consent'' s' = Some text \<and> JSON_parse text = Inr obj
            \<and> get_member2 obj ''categories'' ''functional'' = Inr (JBool True))
     \<and> (\<exists>s' text obj. rejectAllCookies h s = Inr s'
            \<and> getCookie ''cookie_consent'' s' = Some text \<and> JSON_parse text = Inr obj
            \<and> get_member2 obj ''categories'' ''functional'' = Inr (JBool True))
     \<and> ((custom_consentData h s = Inl TypeError \<and> saveCustomSettings h s = Inl TypeError)
          \<or> (\<exists>s' text obj. saveCustomSettings h s = Inr s'
            \<and> getCookie ''cookie_consent'' s' = Some text \<and> JSON_parse text = Inr obj
            \<and> get_member2 obj ''categories'' ''functional'' = Inr (JBool True)))"
proof (intro conjI)
  have "jar (loaded h (accepted_record h) (signalled h (accepted_record h)
            (s\<lparr>jar := AList.update ''cookie_consent'' (decision_text (accepted_record h)) (jar s)\<rparr>)))
        = AList.update ''cookie_consent'' (decision_text (accepted_record h)) (jar s)"
    by (simp add: jar_loaded jar_signalled)
  from persisted_functional [OF assms(1) _ _ this] assms(2)
  show "\<exists>s' text obj. acceptAllCookies h s = Inr s'
            \<and> getCookie ''cookie_consent'' s' = Some text \<and> JSON_parse text = Inr obj
            \<and> get_member2 obj ''categories'' ''functional'' = Inr (JBool True)"
    by (simp add: acceptAllCookies_result accepted_record_def)
next
  have "jar (signalled h (rejected_record h)
            (s\<lparr>jar := AList.update ''cookie_consent'' (decision_text (rejected_record h)) (jar s)\<rparr>))
        = AList.update ''cookie_consent'' (decision_text (rejected_record h)) (jar s)"
    by (simp add: jar_signalled)
  from persisted_functional [OF assms(1) _ _ this] assms(2)
  show "\<exists>s' text obj. rejectAllCookies h s = Inr s'
            \<and> getCookie ''cookie_consent'' s' = Some text \<and> JSON_parse text = Inr obj
            \<and> get_member2 obj ''categories'' ''functional'' = Inr (JBool True)"
    by (simp add: rejectAllCookies_result rejected_record_def)
next
  show "(custom_consentData h s = Inl TypeError \<and> saveCustomSettings h s = Inl TypeError)
          \<or> (\<exists>s' text obj. saveCustomSettings h s = Inr s'
            \<and> getCookie ''cookie_consent'' s' = Some text \<and> JSON_parse text = Inr obj
            \<and> get_member2 obj ''categories'' ''functional'' = Inr (JBool True))"
  proof (cases "custom_consentData h s")
    case (Inl e)
    then have "e = TypeError"
      by (auto simp: custom_consentData_def toggle_checked_def bind_js_def split: option.splits if_splits)
    with Inl show ?thesis by (simp add: saveCustomSettings_def bind_js_def)
  next
    case (Inr v)
    from custom_decision [OF Inr] obtain d where v: "v = decision_obj d"
      and d: "functional (categories d)" "timestamp d = now h"
      by fastforce
    have "jar (loaded h d (signalled h d
            (s\<lparr>jar := AList.update ''cookie_consent'' (decision_text d) (jar s)\<rparr>)))
        = AList.update ''cookie_consent'' (decision_text d) (jar s)"
      by (simp add: jar_loaded jar_signalled)
    from persisted_functional [OF assms(1) _ d(1) this] assms(2) d(2)
    show ?thesis
      by (simp add: saveCustomSettings_result [OF Inr [unfolded v]])
  qed
qed

theorem writers_keep_functional_witness:
  "jar_ok (jar example_page) \<and> time_value (now example_host)
   \<and> (\<exists>s' text obj. acceptAllCookies example_host example_page = Inr s'
            \<and> getCookie ''cookie_consent'' s' = Some text \<and> JSON_parse text = Inr obj
            \<and> get_member2 obj ''categories'' ''functional'' = Inr (JBool True))
   \<and> (\<exists>s' text obj. rejectAllCookies example_host example_page = Inr s'
            \<and> getCookie ''cookie_consent'' s' = Some text \<and> JSON_parse text = Inr obj
            \<and> get_member2 obj ''categories'' ''functional'' = Inr (JBool True))
   \<and> (\<exists>s' text obj. saveCustomSettings example_host example_page = Inr s'
            \<and> getCookie ''cookie_consent'' s' = Some text \<and> JSON_parse text = Inr obj
            \<and> get_member2 obj ''categories'' ''functional'' = Inr (JBool True))"
proof -
  have 1: "jar_ok (jar example_page)"
    by (simp add: example_page_def jar_ok_def cookie_ok_def)
  have 2: "time_value (now example_host)"
    by (simp add: example_host_def time_value_def)
  have 3: "custom_consentData example_host example_page \<noteq> Inl TypeError"
    by (simp add: custom_consentData_def toggle_checked_def bind_js_def example_page_def)
  from writers_keep_functional [OF 1 2] 1 2 3 show ?thesis by blast
qed

lemma initialize_without_decision:
  assumes "getCookie ''cookie_consent'' s = None" "banner s = Some b" "controls_present s"
  shows "initializeCookieConsent h detected s =
     Inr (s\<lparr>banner := Some ''block'',
            listeners := listeners s @
              [(''acceptAllBtn'', AcceptFromBanner), (''rejectAllBtn'', RejectFromBanner),
               (''adjustConsentBtn'', Customize), (''acceptAllSettingsBtn'', AcceptFromSettings),
               (''rejectAllSettingsBtn'', RejectFromSettings), (''saveSettingsBtn'', SaveFromSettings),
               (''.close-modal'', CloseSettings)]\<rparr>)"
proof -
  have "controls_present (s\<lparr>banner := Some ''block''\<rparr>)"
    using assms(3) by (simp add: controls_present_def)
  from register_listeners_result [OF this] assms(1,2) show ?thesis
    by (simp add: initializeCookieConsent_def showCookieBanner_def bind_js_def)
qed

text \<open>
  C9. A click on Reject All in the banner, on a page whose banner exists: the handler
  completes; the cookie \<open>cookie_consent\<close> then reads back as a decision with status
  \<open>rejected\<close>; the banner's display is \<open>none\<close>; and no loader ran: the console gained
  the two lines of \<open>updateConsentMode\<close> and no \<open>Loading ...\<close> line, \<open>dataLayer\<close>
  gained the consent update (everything denied but functionality and security) and its
  event only, and \<open>fbq\<close>, the inserted scripts and \<open>ga\<close> are untouched;
  \<open>rejectAllCookies\<close> itself yields that page but for the banner. The handler is the one
  that initialization, on a page without a prior decision, registers for the button after
  showing the banner.
\<close>

theorem reject_all_runs_no_loader:
  assumes "banner s = Some b" and "jar_ok (jar s)" and "time_value (now h)"
  shows "(\<exists>s' text obj event.
       click RejectFromBanner h s = Inr s'
       \<and> getCookie ''cookie_consent'' s' = Some text \<and> JSON_parse text = Inr obj
       \<and> get_member obj ''status'' = Inr (JStr ''rejected'')
       \<and> banner s' = Some ''none''
       \<and> console s' = console s @
            [[JStr ''Consent Mode Updated:'', decision_states (rejected_record h)],
             [JStr ''GCS Signal Sent:'', JStr ''G100'']]
       \<and> dataLayer s' = dataLayer s @
            [JArr [JStr ''consent'', JStr ''update'', decision_states (rejected_record h)], event]
       \<and> get_member event ''event'' = Inr (JStr ''cookie_consent_update'')
       \<and> fbq s' = fbq s \<and> scripts s' = scripts s \<and> ga_defined s' = ga_defined s
       \<and> rejectAllCookies h s = Inr (s'\<lparr>banner := banner s\<rparr>))
     \<and> decision_states (rejected_record h) =
         JObj [(''ad_storage'', JStr ''denied''), (''analytics_storage'', JStr ''denied''),
               (''ad_user_data'', JStr ''denied''), (''ad_personalization'', JStr ''denied''),
               (''personalization_storage'', JStr ''denied''),
               (''functionality_storage'', JStr ''granted''), (''security_storage'', JStr ''granted'')]
     \<and> (getCookie ''cookie_consent'' s = None \<and> controls_present s \<longrightarrow>
          (\<exists>s1. initializeCookieConsent h detected s = Inr s1 \<and> banner s1 = Some ''block''
             \<and> (''rejectAllBtn'', RejectFromBanner) \<in> set (listeners s1)))"
proof (intro conjI impI)
  let ?d = "rejected_record h"
  let ?s1 = "signalled h ?d (s\<lparr>jar := AList.update ''cookie_consent'' (decision_text ?d) (jar s)\<rparr>)"
  let ?s' = "?s1\<lparr>banner := Some ''none''\<rparr>"
  let ?event = "JObj [(''event'', JStr ''cookie_consent_update''), (''consent_mode'', decision_states ?d),
                (''gcs'', JStr (decision_gcs ?d)), (''timestamp'', JStr (toISOString h (now h)))]"
  have t: "time_value (timestamp ?d)" using assms(3) by (simp add: rejected_record_def)
  have c: "click RejectFromBanner h s = Inr ?s'"
    using assms(1) by (simp add: rejectAllCookies_result bind_js_def hideCookieBanner_def banner_signalled)
  have j: "jar ?s' = AList.update ''cookie_consent'' (decision_text ?d) (jar s)"
    by (simp add: jar_signalled)
  have g: "getCookie ''cookie_consent'' ?s' = Some (decision_text ?d)"
    by (rule getCookie_after_write [OF assms(2) j])
  have st: "get_member (decision_obj ?d) ''status'' = Inr (JStr ''rejected'')"
    by (simp add: status_decision rejected_record_def)
  have r: "rejectAllCookies h s = Inr (?s'\<lparr>banner := banner s\<rparr>)"
    by (simp add: rejectAllCookies_result signalled_def)
  have "console ?s' = console s @
          [[JStr ''Consent Mode Updated:'', decision_states ?d], [JStr ''GCS Signal Sent:'', JStr ''G100'']]"
    "dataLayer ?s' = dataLayer s @ [JArr [JStr ''consent'', JStr ''update'', decision_states ?d], ?event]"
    "fbq ?s' = fbq s" "scripts ?s' = scripts s" "ga_defined ?s' = ga_defined s" "banner ?s' = Some ''none''"
    by (simp_all add: signalled_def decision_gcs_def rejected_record_def)
  with c g st r JSON_parse_decision [OF t]
  show "\<exists>s' text obj event.
       click RejectFromBanner h s = Inr s'
       \<and> getCookie ''cookie_consent'' s' = Some text \<and> JSON_parse text = Inr obj
       \<and> get_member obj ''status'' = Inr (JStr ''rejected'')
       \<and> banner s' = Some ''none''
       \<and> console s' = console s @
            [[JStr ''Consent Mode Updated:'', decision_states (rejected_record h)],
             [JStr ''GCS Signal Sent:'', JStr ''G100'']]
       \<and> dataLayer s' = dataLayer s @
            [JArr [JStr ''consent'', JStr ''update'', decision_states (rejected_record h)], event]
       \<and> get_member event ''event'' = Inr (JStr ''cookie_consent_update'')
       \<and> fbq s' = fbq s \<and> scripts s' = scripts s \<and> ga_defined s' = ga_defined s
       \<and> rejectAllCookies h s = Inr (s'\<lparr>banner := banner s\<rparr>)"
    by (intro exI [of _ ?s'] exI [of _ "decision_text ?d"] exI [of _ "decision_obj ?d"]
          exI [of _ ?event])
       simp
next
  show "decision_states (rejected_record h) =
         JObj [(''ad_storage'', JStr ''denied''), (''analytics_storage'', JStr ''denied''),
               (''ad_user_data'', JStr ''denied''), (''ad_personalization'', JStr ''denied''),
               (''personalization_storage'', JStr ''denied''),
               (''functionality_storage'', JStr ''granted''), (''security_storage'', JStr ''granted'')]"
    by (simp add: decision_states_def rejected_record_def)
next
  assume "getCookie ''cookie_consent'' s = None \<and> controls_present s"
  then show "\<exists>s1. initializeCookieConsent h detected s = Inr s1 \<and> banner s1 = Some ''block''
             \<and> (''rejectAllBtn'', RejectFromBanner) \<in> set (listeners s1)"
    using assms(1) by (simp add: initialize_without_decision)
qed

theorem reject_all_runs_no_loader_witness:
  "banner example_page = Some [] \<and> jar_ok (jar example_page) \<and> time_value (now example_host)
   \<and> getCookie ''cookie_consent'' example_page = None \<and> controls_present example_page
   \<and> (\<exists>s1. initializeCookieConsent example_host empty_result example_page = Inr s1
        \<and> banner s1 = Some ''block'' \<and> (''rejectAllBtn'', RejectFromBanner) \<in> set (listeners s1))
   \<and> (\<exists>s' text obj event.
       click RejectFromBanner example_host example_page = Inr s'
       \<and> getCookie ''cookie_consent'' s' = Some text \<and> JSON_parse text = Inr obj
       \<and> get_member obj ''status'' = Inr (JStr ''rejected'')
       \<and> banner s' = Some ''none''
       \<and> console s' = console example_page @
            [[JStr ''Consent Mode Updated:'', decision_states (rejected_record example_host)],
             [JStr ''GCS Signal Sent:'', JStr ''G100'']]
       \<and> dataLayer s' = dataLayer example_page @
            [JArr [JStr ''consent'', JStr ''update'', decision_states (rejected_record example_host)], event]
       \<and> get_member event ''event'' = Inr (JStr ''cookie_consent_update'')
       \<and> fbq s' = fbq example_page \<and> scripts s' = scripts example_page
       \<and> ga_defined s' = ga_defined example_page
       \<and> rejectAllCookies example_host example_page = Inr (s'\<lparr>banner := banner example_page\<rparr>))"
proof -
  have 1: "banner example_page = Some []" by (simp add: example_page_def)
  have 2: "jar_ok (jar example_page)"
    by (simp add: example_page_def jar_ok_def cookie_ok_def)
  have 3: "time_value (now example_host)"
    by (simp add: example_host_def time_value_def)
  have 4: "getCookie ''cookie_consent'' example_page = None"
    using getCookie_map_of [OF 2, of "''cookie_consent''"] by (simp add: example_page_def)
  have 5: "controls_present example_page"
    by (simp add: controls_present_def example_page_def)
  from reject_all_runs_no_loader [OF 1 2 3, where detected = empty_result] 1 2 3 4 5
  show ?thesis by blast
qed

text \<open>
  C10. On a page without an uncategorized toggle (its three other toggles present),
  \<open>saveCustomSettings\<close> builds, and stores in the cookie, the decision whose
  \<open>categories.uncategorized\<close> is \<open>false\<close>, while \<open>acceptAllCookies\<close> on the same page
  stores a decision whose \<open>categories.uncategorized\<close> is \<open>true\<close>. Rendering a snapshot
  with no uncategorized cookie into a page that has no such toggle yields a page without
  one.
\<close>

theorem save_without_uncategorized_toggle:
  assumes "map_of (toggles s) ''uncategorized'' = None"
    and "map_of (toggles s) ''analytics'' = Some a"
    and "map_of (toggles s) ''performance'' = Some p"
    and "map_of (toggles s) ''advertising'' = Some ad"
  shows "(\<exists>saved s'.
       custom_consentData h s = Inr saved
       \<and> saved = decision_obj
           \<lparr>status = Custom, signal = G101,
            categories = \<lparr>functional = True, analytics = a, performance = p, advertising = ad,
                          uncategorized = False\<rparr>,
            timestamp = now h\<rparr>
       \<and> get_member2 saved ''categories'' ''uncategorized'' = Inr (JBool False)
       \<and> saveCustomSettings h s = Inr s'
       \<and> map_of (jar s') ''cookie_consent'' = JSON_stringify h saved)
     \<and> (\<exists>s'. acceptAllCookies h s = Inr s'
       \<and> map_of (jar s') ''cookie_consent'' = JSON_stringify h (accepted_consentData h))
     \<and> get_member2 (accepted_consentData h) ''categories'' ''uncategorized'' = Inr (JBool True)
     \<and> (map_of detectedCookies ''uncategorized'' = Some []
          \<and> map_of (toggles s0) ''uncategorized'' = None
          \<and> injectConsentHTML detectedCookies s0 = Inr s1
        \<longrightarrow> map_of (toggles s1) ''uncategorized'' = None)"
proof (intro conjI)
  let ?d = "\<lparr>status = Custom, signal = G101,
            categories = \<lparr>functional = True, analytics = a, performance = p, advertising = ad,
                          uncategorized = False\<rparr>,
            timestamp = now h\<rparr>"
  have c: "custom_consentData h s = Inr (decision_obj ?d)"
    using assms by (simp add: custom_consentData_def toggle_checked_def bind_js_def decision_obj_def)
  show "\<exists>saved s'.
       custom_consentData h s = Inr saved
       \<and> saved = decision_obj ?d
       \<and> get_member2 saved ''categories'' ''uncategorized'' = Inr (JBool False)
       \<and> saveCustomSettings h s = Inr s'
       \<and> map_of (jar s') ''cookie_consent'' = JSON_stringify h saved"
    by (simp add: c saveCustomSettings_result [OF c] categories_decision jar_loaded jar_signalled
          update_conv' JSON_stringify_def ser_decision)
next
  show "\<exists>s'. acceptAllCookies h s = Inr s'
       \<and> map_of (jar s') ''cookie_consent'' = JSON_stringify h (accepted_consentData h)"
    by (simp add: acceptAllCookies_result jar_loaded jar_signalled update_conv' JSON_stringify_def
          accepted_decision ser_decision accepted_record_def)
next
  show "get_member2 (accepted_consentData h) ''categories'' ''uncategorized'' = Inr (JBool True)"
    by (simp add: accepted_decision categories_decision)
next
  show "map_of detectedCookies ''uncategorized'' = Some []
          \<and> map_of (toggles s0) ''uncategorized'' = None
          \<and> injectConsentHTML detectedCookies s0 = Inr s1
        \<longrightarrow> map_of (toggles s1) ''uncategorized'' = None"
    by (auto simp: injectConsentHTML_def map_add_def split: if_splits option.splits)
qed

theorem save_without_uncategorized_toggle_witness:
  "map_of (toggles example_page) ''uncategorized'' = None
   \<and> map_of (toggles example_page) ''analytics'' = Some True
   \<and> map_of (toggles example_page) ''performance'' = Some False
   \<and> map_of (toggles example_page) ''advertising'' = Some False
   \<and> map_of example_snapshot ''uncategorized'' = Some []
   \<and> map_of (toggles example_fresh_page) ''uncategorized'' = None
   \<and> injectConsentHTML example_snapshot example_fresh_page = Inr (example_page\<lparr>toggles :=
        [(''functional'', True), (''analytics'', False), (''performance'', False), (''advertising'', False)]\<rparr>)
   \<and> (\<exists>saved s'.
       custom_consentData example_host example_page = Inr saved
       \<and> get_member2 saved ''categories'' ''uncategorized'' = Inr (JBool False)
       \<and> saveCustomSettings example_host example_page = Inr s'
       \<and> map_of (jar s') ''cookie_consent'' = JSON_stringify example_host saved)
   \<and> (\<exists>s'. acceptAllCookies example_host example_page = Inr s'
       \<and> map_of (jar s') ''cookie_consent'' = JSON_stringify example_host (accepted_consentData example_host))
   \<and> get_member2 (accepted_consentData example_host) ''categories'' ''uncategorized'' = Inr (JBool True)
   \<and> map_of (toggles (example_page\<lparr>toggles :=
        [(''functional'', True), (''analytics'', False), (''performance'', False), (''advertising'', False)]\<rparr>))
        ''uncategorized'' = None"
proof -
  have 1: "map_of (toggles example_page) ''uncategorized'' = None"
    and 2: "map_of (toggles example_page) ''analytics'' = Some True"
    and 3: "map_of (toggles example_page) ''performance'' = Some False"
    and 4: "map_of (toggles example_page) ''advertising'' = Some False"
    by (simp_all add: example_page_def)
  have 5: "map_of example_snapshot ''uncategorized'' = Some []"
    by (simp add: example_snapshot_def)
  have 6: "map_of (toggles example_fresh_page) ''uncategorized'' = None"
    by (simp add: example_fresh_page_def)
  have 7: "injectConsentHTML example_snapshot example_fresh_page = Inr (example_page\<lparr>toggles :=
        [(''functional'', True), (''analytics'', False), (''performance'', False), (''advertising'', False)]\<rparr>)"
    by (simp add: injectConsentHTML_def example_snapshot_def example_fresh_page_def example_page_def)
  from save_without_uncategorized_toggle [OF 1 2 3 4, of example_host example_snapshot example_fresh_page
      "example_page\<lparr>toggles :=
        [(''functional'', True), (''analytics'', False), (''performance'', False), (''advertising'', False)]\<rparr>"]
    1 2 3 4 5 6 7
  show ?thesis by blast
qed




section \<open>The scan\<close>

lemma pattern_loop_find:
  "pattern_loop h doc name db result =
     (case find (\<lambda>pc. string_includes name (fst pc)) db of
        None \<Rightarrow> Inr (result, False)
      | Some pc \<Rightarrow>
          bind_js (getCookieDuration h doc name) (\<lambda>duration.
          bind_js (push (snd pc) (cookie_entry name duration (getCookieDescription name)) result) (\<lambda>result1.
          Inr (result1, True))))"
  by (induction db) simp_all

lemma database_categories:
  "pc \<in> set cookieDatabase \<Longrightarrow>
   snd pc = ''functional'' \<or> snd pc = ''analytics'' \<or> snd pc = ''performance'' \<or> snd pc = ''advertising''"
  by (auto simp: cookieDatabase_def)

lemma database_patterns_nonempty: "pc \<in> set cookieDatabase \<Longrightarrow> fst pc \<noteq> []"
  by (auto simp: cookieDatabase_def)

lemma find_in_set: "find P xs = Some x \<Longrightarrow> x \<in> set xs \<and> P x"
  by (induction xs) (auto split: if_splits)

lemma empty_result_scanned: "empty_result = scanned h doc []"
  by (simp add: empty_result_def scanned_def)

lemma push_scanned:
  assumes "scan_target name = Some category"
    and "category \<in> {''functional'', ''analytics'', ''performance'', ''advertising'', ''uncategorized''}"
  shows "push category (scan_entry h doc category name) (scanned h doc names) =
           Inr (scanned h doc (names @ [name]))"
  using assms by (auto simp: push_def scanned_def)

lemma scan_cookie_scanned:
  assumes "cookie_name cookie = [] \<or> getCookieDuration h doc (cookie_name cookie) = Inr duration"
  shows "scan_cookie h doc (scanned h doc names) cookie = Inr (scanned h doc (names @ [cookie_name cookie]))"
proof (cases "find (\<lambda>pc. string_includes (cookie_name cookie) (fst pc)) cookieDatabase")
  case None
  show ?thesis
  proof (cases "cookie_name cookie = []")
    case True
    then have "scan_target (cookie_name cookie) = None" using None by (simp add: scan_target_def)
    then have "scanned h doc (names @ [cookie_name cookie]) = scanned h doc names"
      by (simp add: scanned_def)
    with None True show ?thesis
      by (simp add: scan_cookie_def pattern_loop_find bind_js_def Let_def)
  next
    case False
    then have t: "scan_target (cookie_name cookie) = Some ''uncategorized''" using None
      by (simp add: scan_target_def)
    from False assms have d: "getCookieDuration h doc (cookie_name cookie) = Inr duration" by simp
    have e: "cookie_entry (cookie_name cookie) duration ''Unknown cookie purpose'' =
        scan_entry h doc ''uncategorized'' (cookie_name cookie)"
      by (simp add: scan_entry_def d)
    from None False show ?thesis
      by (simp add: scan_cookie_def pattern_loop_find bind_js_def Let_def d e push_scanned [OF t])
  qed
next
  case (Some pc)
  from find_in_set [OF Some] have pc: "pc \<in> set cookieDatabase"
    and m: "string_includes (cookie_name cookie) (fst pc)" by simp_all
  from database_categories [OF pc]
  have c: "snd pc \<in> {''functional'', ''analytics'', ''performance'', ''advertising'', ''uncategorized''}"
    and nu: "snd pc \<noteq> ''uncategorized''"
    by auto
  from m database_patterns_nonempty [OF pc] have "cookie_name cookie \<noteq> []"
    by (auto simp: string_includes_def)
  with assms have d: "getCookieDuration h doc (cookie_name cookie) = Inr duration" by simp
  have t: "scan_target (cookie_name cookie) = Some (snd pc)" using Some by (simp add: scan_target_def)
  have e: "cookie_entry (cookie_name cookie) duration (getCookieDescription (cookie_name cookie)) =
        scan_entry h doc (snd pc) (cookie_name cookie)"
    using nu by (simp add: scan_entry_def d)
  from Some show ?thesis
    by (simp add: scan_cookie_def pattern_loop_find bind_js_def Let_def d e push_scanned [OF t c])
qed



text \<open>
  The scan does not complete otherwise: when \<open>getCookieDuration\<close> throws for a cookie
  with a non-empty name, the error leaves \<open>forEach\<close> and the scan.
\<close>

lemma getCookieDuration_throws:
  "regexp_match h (name @ ''=[^;]+(;|$)'') doc = Inl e \<Longrightarrow> getCookieDuration h doc name = Inl e"
  by (simp add: getCookieDuration_def bind_js_def)

lemma scan_cookie_throws:
  assumes "cookie_name cookie \<noteq> []" "getCookieDuration h doc (cookie_name cookie) = Inl e"
  shows "scan_cookie h doc (scanned h doc names) cookie = Inl e"
proof (cases "find (\<lambda>pc. string_includes (cookie_name cookie) (fst pc)) cookieDatabase")
  case None
  with assms show ?thesis
    by (simp add: scan_cookie_def pattern_loop_find bind_js_def Let_def)
next
  case (Some pc)
  with assms show ?thesis
    by (simp add: scan_cookie_def pattern_loop_find bind_js_def Let_def)
qed

lemma forEach_throws:
  "\<exists>cookie\<in>set cookies. cookie_name cookie \<noteq> [] \<and>
     (\<exists>e. getCookieDuration h doc (cookie_name cookie) = Inl e) \<Longrightarrow>
   \<exists>e. forEach_cookie h doc cookies (scanned h doc names) = Inl e"
proof (induction cookies arbitrary: names)
  case Nil
  then show ?case by simp
next
  case (Cons cookie cookies)
  show ?case
  proof (cases "cookie_name cookie \<noteq> [] \<and> (\<exists>e. getCookieDuration h doc (cookie_name cookie) = Inl e)")
    case True
    then obtain e where "cookie_name cookie \<noteq> []" "getCookieDuration h doc (cookie_name cookie) = Inl e"
      by blast
    from scan_cookie_throws [OF this] show ?thesis by (simp add: bind_js_def)
  next
    case False
    then obtain duration where
      d: "cookie_name cookie = [] \<or> getCookieDuration h doc (cookie_name cookie) = Inr duration"
      by (cases "getCookieDuration h doc (cookie_name cookie)") auto
    from False Cons.prems have "\<exists>cookie\<in>set cookies. cookie_name cookie \<noteq> [] \<and>
        (\<exists>e. getCookieDuration h doc (cookie_name cookie) = Inl e)"
      by auto
    from Cons.IH [OF this] show ?thesis by (simp add: scan_cookie_scanned [OF d] bind_js_def)
  qed
qed

lemma scan_cookies_throws:
  assumes "cookie \<in> set (split_on CHR '';'' doc)" "cookie_name cookie \<noteq> []"
    "getCookieDuration h doc (cookie_name cookie) = Inl e"
  shows "\<exists>e. scan_cookies h doc = Inl e"
proof -
  from assms have "\<exists>cookie\<in>set (split_on CHR '';'' doc). cookie_name cookie \<noteq> [] \<and>
      (\<exists>e. getCookieDuration h doc (cookie_name cookie) = Inl e)"
    by blast
  from forEach_throws [OF this, of "[]"] show ?thesis
    by (simp add: scan_cookies_def empty_result_scanned [of h doc])
qed






















end
